theory Spec2Isabelle
  imports Complex_Main
begin

section \<open>Style transfer with VGG16: the model of \<open>models/VGG16StyleTransfer.py\<close>\<close>

text \<open>
  Numbers: the floating-point values of the program are modelled over \<^typ>\<open>real\<close>;
  rounding and infinities are outside this model. The samples of an image tensor (the
  style, content and generated image, a gradient) are a real or NaN, since the optimizer
  may hand back NaN and the clamp does not remove it. The element type of a tensor
  (\<open>float32\<close> or \<open>float16\<close>) is carried beside the tensor where the program depends on
  it. Python integers are \<^typ>\<open>int\<close>, sizes and indices that cannot be negative are
  \<^typ>\<open>nat\<close>.
\<close>

subsection \<open>Exceptions\<close>

datatype error =
    Exception string
  | ValueError
  | IndexError
  | ZeroDivisionError
  | FileNotFoundError
  | InvalidArgumentError
  | TypeError
  | Shapes_differ

subsection \<open>Tensors\<close>

text \<open>
  A dense array: its shape and its elements in row-major order. A feature tensor
  (activations, gram matrices, weights) holds reals; an image tensor holds samples.
\<close>

datatype sample = Finite real | NaN

record 'a ndarray =
  shape :: "nat list"
  vals :: "'a list"

type_synonym tensor = "real ndarray"

type_synonym image = "sample ndarray"

definition wf_tensor :: "tensor \<Rightarrow> bool" where
  "wf_tensor t = (length (vals t) = prod_list (shape t))"

subsection \<open>Construction: precision selector and weight transplant\<close>

datatype dtype = Float32 | Float16

text \<open>Lines 31 to 37 of \<open>__init__\<close>: the first statements after the base-class constructor.\<close>

definition select_floatType :: "int \<Rightarrow> error + dtype" where
  "select_floatType floatType =
     (if floatType = 32 then Inr Float32
      else if floatType = 16 then Inr Float16
      else Inl (Exception ''floatType should be either 32 or 16''))"

text \<open>
  A Keras layer as far as the transplant touches it: its parameter arrays and its
  \<open>trainable\<close> flag.
\<close>

record layer =
  weights :: "tensor list"
  trainable :: bool

text \<open>
  Keras \<open>get_layer(index=i)\<close>: a \<open>ValueError\<close> when the model has no more than \<open>i\<close>
  layers. The transplant only passes indices that are not negative.
\<close>

definition get_layer :: "'a list \<Rightarrow> nat \<Rightarrow> error + 'a" where
  "get_layer layers index = (if length layers \<le> index then Inl ValueError else Inr (layers ! index))"

text \<open>
  Keras \<open>set_weights\<close>: a \<open>ValueError\<close> when the number of arrays or the shape of one of
  them differs from the layer's own parameters.
\<close>

definition set_weights :: "layer \<Rightarrow> tensor list \<Rightarrow> error + layer" where
  "set_weights l ws =
     (if map shape (weights l) = map shape ws then Inr (l\<lparr>weights := ws\<rparr>) else Inl ValueError)"

text \<open>
  One pass of the loop at lines 64 to 74. The loop state is \<open>ssd_seq_idx\<close> and the layers of
  \<open>VGG16_tilStage5\<close>; \<open>ssd_layer_idx\<close> is assigned afresh in every pass. The backbone is the
  list of its sub-stacks, each a list of layers.
\<close>

definition transplant_step ::
  "layer list list \<Rightarrow> nat \<Rightarrow> nat \<times> layer list \<Rightarrow> error + (nat \<times> layer list)" where
  "transplant_step SSD_backbone i st =
     (let ssd_seq_idx = (if i \<ge> 13 then 1 else fst st);
          ssd_layer_idx = (if i \<ge> 13 then i - 13 else i);
          layers = snd st
      in case get_layer layers i of
           Inl e \<Rightarrow> Inl e
         | Inr dst \<Rightarrow>
             (case get_layer SSD_backbone ssd_seq_idx of
                Inl e \<Rightarrow> Inl e
              | Inr stack \<Rightarrow>
                  (case get_layer stack ssd_layer_idx of
                     Inl e \<Rightarrow> Inl e
                   | Inr src \<Rightarrow>
                       (case set_weights dst (weights src) of
                          Inl e \<Rightarrow> Inl e
                        | Inr dst' \<Rightarrow>
                            Inr (ssd_seq_idx, layers[i := dst'\<lparr>trainable := False\<rparr>])))))"

text \<open>The \<open>for i in range(...)\<close> loop: the passes in order, stopping at the first exception.\<close>

fun transplant_loop ::
  "layer list list \<Rightarrow> nat list \<Rightarrow> nat \<times> layer list \<Rightarrow> error + (nat \<times> layer list)" where
  "transplant_loop SSD_backbone [] st = Inr st"
| "transplant_loop SSD_backbone (i # is) st =
     (case transplant_step SSD_backbone i st of
        Inl e \<Rightarrow> Inl e
      | Inr st' \<Rightarrow> transplant_loop SSD_backbone is st')"

definition transplant :: "layer list list \<Rightarrow> layer list \<Rightarrow> error + layer list" where
  "transplant SSD_backbone layers =
     (case transplant_loop SSD_backbone [0..<length layers] (0, layers) of
        Inl e \<Rightarrow> Inl e
      | Inr st \<Rightarrow> Inr (snd st))"

text \<open>
  The source layer the transplant reads for target layer \<open>i\<close>, and the condition under
  which every copy is accepted.
\<close>

definition ssd_source :: "layer list list \<Rightarrow> nat \<Rightarrow> layer" where
  "ssd_source SSD_backbone i =
     (if i < 13 then SSD_backbone ! 0 ! i else SSD_backbone ! 1 ! (i - 13))"

definition transplant_ok :: "layer list list \<Rightarrow> layer list \<Rightarrow> bool" where
  "transplant_ok SSD_backbone layers =
     list_all (\<lambda>i.
        (if i < 13 then 0 < length SSD_backbone \<and> i < length (SSD_backbone ! 0)
         else 1 < length SSD_backbone \<and> i - 13 < length (SSD_backbone ! 1))
        \<and> map shape (weights (layers ! i)) = map shape (weights (ssd_source SSD_backbone i)))
       [0..<length layers]"

text \<open>
  The constructor up to the transplant. The detector \<open>SSD300\<close> and the topology \<open>VGG16\<close>
  are not part of this repository: what building them yields (\<open>getVGG16()\<close> and
  \<open>getUntilStage5().layers\<close>, or the exception raised on the way) is a parameter.
\<close>

record style_transfer =
  floatType :: dtype
  VGG16_tilStage5 :: "layer list"

definition init ::
  "(dtype \<Rightarrow> error + (layer list list \<times> layer list)) \<Rightarrow> int \<Rightarrow> error + style_transfer" where
  "init build ft =
     (case select_floatType ft of
        Inl e \<Rightarrow> Inl e
      | Inr t \<Rightarrow>
          (case build t of
             Inl e \<Rightarrow> Inl e
           | Inr (SSD_backbone, layers) \<Rightarrow>
               (case transplant SSD_backbone layers of
                  Inl e \<Rightarrow> Inl e
                | Inr layers' \<Rightarrow> Inr \<lparr>floatType = t, VGG16_tilStage5 = layers'\<rparr>)))"

subsection \<open>TensorFlow operations used by the feature and loss code\<close>

text \<open>Element \<open>[b, i, j, c]\<close> of a rank-4 tensor and element \<open>[b, c, d]\<close> of a rank-3 tensor.\<close>

definition at4 :: "tensor \<Rightarrow> nat \<Rightarrow> nat \<Rightarrow> nat \<Rightarrow> nat \<Rightarrow> real" where
  "at4 t b i j c =
     vals t ! (((b * (shape t ! 1) + i) * (shape t ! 2) + j) * (shape t ! 3) + c)"

definition at3 :: "tensor \<Rightarrow> nat \<Rightarrow> nat \<Rightarrow> nat \<Rightarrow> real" where
  "at3 t b c d = vals t ! ((b * (shape t ! 1) + c) * (shape t ! 2) + d)"

text \<open>
  \<open>tf.linalg.einsum('bijc,bijd->bcd', x, y)\<close>: both operands of rank 4 with equal
  \<open>b\<close>, \<open>i\<close>, \<open>j\<close> extents, otherwise TensorFlow rejects the call.
\<close>

definition einsum_bijc_bijd_bcd :: "tensor \<Rightarrow> tensor \<Rightarrow> error + tensor" where
  "einsum_bijc_bijd_bcd x y =
     (if length (shape x) = 4 \<and> length (shape y) = 4 \<and> take 3 (shape x) = take 3 (shape y)
      then Inr \<lparr>shape = [shape x ! 0, shape x ! 3, shape y ! 3],
               vals = concat (map (\<lambda>b. concat (map (\<lambda>c. map (\<lambda>d.
                        (\<Sum>i\<leftarrow>[0..<shape x ! 1]. \<Sum>j\<leftarrow>[0..<shape x ! 2].
                            at4 x b i j c * at4 y b i j d))
                      [0..<shape y ! 3]) [0..<shape x ! 3])) [0..<shape x ! 0])\<rparr>
      else Inl InvalidArgumentError)"

text \<open>A tensor divided by a scalar.\<close>

definition tf_divide :: "tensor \<Rightarrow> real \<Rightarrow> tensor" where
  "tf_divide t s = t\<lparr>vals := map (\<lambda>v. v / s) (vals t)\<rparr>"

text \<open>
  \<open>a - b\<close> for operands of one shape. Operands of different shapes, which TensorFlow
  broadcasts when it can and rejects otherwise, are outside this model: they give
  \<open>Shapes_differ\<close>, and no result below is about them.
\<close>

definition tf_subtract :: "tensor \<Rightarrow> tensor \<Rightarrow> error + tensor" where
  "tf_subtract a b =
     (if shape a = shape b then Inr \<lparr>shape = shape a, vals = map2 (-) (vals a) (vals b)\<rparr>
      else Inl Shapes_differ)"

definition tf_square :: "tensor \<Rightarrow> tensor" where
  "tf_square t = t\<lparr>vals := map (\<lambda>v. v * v) (vals t)\<rparr>"

definition reduce_sum :: "tensor \<Rightarrow> real" where
  "reduce_sum t = sum_list (vals t)"

definition reduce_mean :: "tensor \<Rightarrow> real" where
  "reduce_mean t = sum_list (vals t) / real (length (vals t))"

text \<open>\<open>tf.add_n\<close> on scalars: a \<open>ValueError\<close> on the empty list.\<close>

definition add_n :: "real list \<Rightarrow> error + real" where
  "add_n inputs = (if inputs = [] then Inl ValueError else Inr (sum_list inputs))"

text \<open>An image divided by a scalar: NaN stays NaN.\<close>

definition sample_divide :: "sample \<Rightarrow> real \<Rightarrow> sample" where
  "sample_divide x s = (case x of Finite v \<Rightarrow> Finite (v / s) | NaN \<Rightarrow> NaN)"

definition image_divide :: "image \<Rightarrow> real \<Rightarrow> image" where
  "image_divide t s = t\<lparr>vals := map (\<lambda>x. sample_divide x s) (vals t)\<rparr>"

text \<open>
  \<open>tf.clip_by_value\<close>: the minimum with the upper bound, then the maximum with the lower.
  A NaN sample passes through unchanged.
\<close>

definition clip_sample :: "real \<Rightarrow> real \<Rightarrow> sample \<Rightarrow> sample" where
  "clip_sample clip_value_min clip_value_max x =
     (case x of
        Finite v \<Rightarrow> Finite (max (min v clip_value_max) clip_value_min)
      | NaN \<Rightarrow> NaN)"

definition clip_by_value :: "image \<Rightarrow> real \<Rightarrow> real \<Rightarrow> image" where
  "clip_by_value t clip_value_min clip_value_max =
     t\<lparr>vals := map (clip_sample clip_value_min clip_value_max) (vals t)\<rparr>"

text \<open>\<open>tf.squeeze\<close>: every dimension of extent 1 is dropped.\<close>

definition tf_squeeze :: "'a ndarray \<Rightarrow> 'a ndarray" where
  "tf_squeeze t = t\<lparr>shape := filter (\<lambda>d. d \<noteq> 1) (shape t)\<rparr>"

text \<open>A list comprehension whose body may raise: left to right, the first exception wins.\<close>

fun mapE :: "('a \<Rightarrow> error + 'b) \<Rightarrow> 'a list \<Rightarrow> error + 'b list" where
  "mapE f [] = Inr []"
| "mapE f (x # xs) =
     (case f x of
        Inl e \<Rightarrow> Inl e
      | Inr y \<Rightarrow> (case mapE f xs of Inl e \<Rightarrow> Inl e | Inr ys \<Rightarrow> Inr (y # ys)))"

subsection \<open>\<open>get_features\<close> and \<open>get_loss\<close>\<close>

text \<open>
  \<open>gram_calc\<close>, lines 109 to 112. \<open>data_dtype\<close> is the element type of \<open>data\<close>. The
  einsum keeps that type and is divided by \<open>tf.cast(..., tf.float32)\<close>: TensorFlow's
  division raises a \<open>TypeError\<close> unless both operands have one type.
\<close>

definition gram_calc :: "dtype \<Rightarrow> tensor \<Rightarrow> error + tensor" where
  "gram_calc data_dtype data =
     (case einsum_bijc_bijd_bcd data data of
        Inl e \<Rightarrow> Inl e
      | Inr g \<Rightarrow>
          (if data_dtype = Float32
           then Inr (tf_divide g (real (shape data ! 1 * shape data ! 2)))
           else Inl TypeError))"

text \<open>
  \<open>self.model\<close>, the truncated VGG-16 with its seven outputs, is a parameter: a function
  from the input image to the list of output tensors. Its layers are built after the
  constructor has set the Keras float type, so its outputs have the element type the
  constructor selected (\<open>self.floatType\<close>): the parameter \<open>act_dtype\<close>.
\<close>

definition get_features ::
  "dtype \<Rightarrow> (image \<Rightarrow> tensor list) \<Rightarrow> image \<Rightarrow> error + (tensor list \<times> tensor)" where
  "get_features act_dtype model data =
     (let outputs = model (image_divide data 255)
      in case mapE (gram_calc act_dtype) (butlast outputs) of
           Inl e \<Rightarrow> Inl e
         | Inr style_features \<Rightarrow>
             (if outputs = [] then Inl IndexError else Inr (style_features, last outputs)))"

definition get_loss :: "tensor list \<Rightarrow> tensor list \<Rightarrow> tensor \<Rightarrow> tensor \<Rightarrow> error + real" where
  "get_loss style_target style_feature content_target content_feature =
     (case mapE (\<lambda>(features, targets).
                   case tf_subtract features targets of
                     Inl e \<Rightarrow> Inl e
                   | Inr d \<Rightarrow> Inr (reduce_mean (tf_square d)))
                (zip style_feature style_target) of
        Inl e \<Rightarrow> Inl e
      | Inr terms \<Rightarrow>
          (case add_n terms of
             Inl e \<Rightarrow> Inl e
           | Inr style_loss \<Rightarrow>
               (case tf_subtract content_feature content_target of
                  Inl e \<Rightarrow> Inl e
                | Inr d \<Rightarrow>
                    (case add_n [0.5 * reduce_sum (tf_square d)] of
                       Inl e \<Rightarrow> Inl e
                     | Inr content_loss \<Rightarrow> Inr (1 * style_loss + (1 / 10 ^ 30) * content_loss)))))"

text \<open>
  The loss as the specification words it: per style layer the mean of the squared
  element-wise differences, summed over the layers; half the sum of the squared
  element-wise differences of the content tensors; weights \<open>1.0\<close> and \<open>1e-30\<close>.
\<close>

definition mean_squared_difference :: "tensor \<Rightarrow> tensor \<Rightarrow> real" where
  "mean_squared_difference g t =
     (\<Sum>k<length (vals g). (vals g ! k - vals t ! k)\<^sup>2) / real (length (vals g))"

definition style_loss_spec :: "tensor list \<Rightarrow> tensor list \<Rightarrow> real" where
  "style_loss_spec gs ts = (\<Sum>l<length gs. mean_squared_difference (gs ! l) (ts ! l))"

definition content_loss_spec :: "tensor \<Rightarrow> tensor \<Rightarrow> real" where
  "content_loss_spec g t = 0.5 * (\<Sum>k<length (vals g). (vals g ! k - vals t ! k)\<^sup>2)"

subsection \<open>The optimization loop: \<open>training\<close>\<close>

record pil_image =
  mode :: string
  img_size :: "nat \<times> nat"
  pixels :: "nat list"

text \<open>
  Keras \<open>array_to_img(x)\<close> with its defaults (\<open>scale=True\<close>): a rank-3 array is shifted
  by its minimum, divided by its maximum unless that is zero, multiplied by 255 and cast
  to \<open>uint8\<close> (a truncation; the values lie in \<open>[0, 255]\<close> by then). The image has
  width \<open>shape[1]\<close> and height \<open>shape[0]\<close>. A \<open>ValueError\<close> on another rank, on a channel
  count other than 4, 3 or 1, and from \<open>np.min\<close> on an array without elements.
  When a sample is NaN, the minimum is NaN and so is every scaled value; what the cast
  to \<open>uint8\<close> makes of NaN is not specified by NumPy and is the parameter \<open>nan_pixel\<close>.
\<close>

definition sample_value :: "sample \<Rightarrow> real" where
  "sample_value x = (case x of Finite v \<Rightarrow> v | NaN \<Rightarrow> 0)"

definition array_to_img :: "nat \<Rightarrow> image \<Rightarrow> error + pil_image" where
  "array_to_img nan_pixel x =
     (if length (shape x) \<noteq> 3 then Inl ValueError
      else if vals x = [] then Inl ValueError
      else
        let xs = map sample_value (vals x);
            x1 = map (\<lambda>v. v - Min (set xs)) xs;
            x_max = Max (set x1);
            x2 = (if x_max \<noteq> 0 then map (\<lambda>v. v / x_max) x1 else x1);
            x3 = map (\<lambda>v. v * 255) x2;
            px = (if NaN \<in> set (vals x) then replicate (length (vals x)) nan_pixel
                  else map (\<lambda>v. nat \<lfloor>v\<rfloor>) x3);
            sz = (shape x ! 1, shape x ! 0)
        in if shape x ! 2 = 4 then Inr \<lparr>mode = ''RGBA'', img_size = sz, pixels = px\<rparr>
           else if shape x ! 2 = 3 then Inr \<lparr>mode = ''RGB'', img_size = sz, pixels = px\<rparr>
           else if shape x ! 2 = 1 then Inr \<lparr>mode = ''L'', img_size = sz, pixels = px\<rparr>
           else Inl ValueError)"

text \<open>The loss of an image against fixed targets: the body of the gradient tape.\<close>

definition loss_of ::
  "dtype \<Rightarrow> (image \<Rightarrow> tensor list) \<Rightarrow> tensor list \<Rightarrow> tensor \<Rightarrow> image \<Rightarrow> error + real" where
  "loss_of act_dtype model style_targets content_targets data =
     (case get_features act_dtype model data of
        Inl e \<Rightarrow> Inl e
      | Inr (style_features, content_features) \<Rightarrow>
          get_loss style_targets style_features content_targets content_features)"

text \<open>
  The state of the loop: the variable \<open>generated_image\<close>, the optimizer object (of any
  type \<open>'o\<close>) and the list \<open>images\<close>.
\<close>

record 'o train_state =
  generated_image :: image
  optimizer :: 'o
  images :: "pil_image list"

text \<open>
  One pass of the loop at lines 167 to 189. Automatic differentiation and the optimizer
  are parameters: \<open>gradient f x\<close> is \<open>tape.gradient\<close> of the loss \<open>f\<close> at the image \<open>x\<close>,
  and \<open>apply_gradients opt g x\<close> is the new optimizer state with the updated variable.
  Either may hand back NaN samples.
\<close>

definition training_step ::
  "dtype \<Rightarrow> nat \<Rightarrow> (image \<Rightarrow> tensor list) \<Rightarrow> ((image \<Rightarrow> error + real) \<Rightarrow> image \<Rightarrow> image) \<Rightarrow>
   ('o \<Rightarrow> image \<Rightarrow> image \<Rightarrow> 'o \<times> image) \<Rightarrow> tensor list \<Rightarrow> tensor \<Rightarrow>
   'o train_state \<Rightarrow> error + 'o train_state" where
  "training_step act_dtype nan_pixel model gradient apply_gradients style_targets
       content_targets s =
     (case loss_of act_dtype model style_targets content_targets (generated_image s) of
        Inl e \<Rightarrow> Inl e
      | Inr loss \<Rightarrow>
          (let gradients = gradient (loss_of act_dtype model style_targets content_targets)
                             (generated_image s);
               upd = apply_gradients (optimizer s) gradients (generated_image s);
               clipped = clip_by_value (snd upd) 0 255
           in case array_to_img nan_pixel (tf_squeeze clipped) of
                Inl e \<Rightarrow> Inl e
              | Inr tmp_img \<Rightarrow>
                  Inr \<lparr>generated_image = clipped, optimizer = fst upd,
                       images = images s @ [tmp_img]\<rparr>))"

fun training_loop ::
  "dtype \<Rightarrow> nat \<Rightarrow> (image \<Rightarrow> tensor list) \<Rightarrow> ((image \<Rightarrow> error + real) \<Rightarrow> image \<Rightarrow> image) \<Rightarrow>
   ('o \<Rightarrow> image \<Rightarrow> image \<Rightarrow> 'o \<times> image) \<Rightarrow> tensor list \<Rightarrow> tensor \<Rightarrow>
   nat \<Rightarrow> 'o train_state \<Rightarrow> error + 'o train_state" where
  "training_loop act_dtype nan_pixel model gradient apply_gradients style_targets
       content_targets 0 s = Inr s"
| "training_loop act_dtype nan_pixel model gradient apply_gradients style_targets
       content_targets (Suc n) s =
     (case training_step act_dtype nan_pixel model gradient apply_gradients style_targets
             content_targets s of
        Inl e \<Rightarrow> Inl e
      | Inr s' \<Rightarrow>
          training_loop act_dtype nan_pixel model gradient apply_gradients style_targets
            content_targets n s')"

text \<open>
  The state in which the loop starts (lines 149 to 164), and \<open>training\<close> itself;
  \<open>range(epochs)\<close> is empty for a negative \<open>epochs\<close>.
\<close>

definition training_init ::
  "dtype \<Rightarrow> nat \<Rightarrow> (image \<Rightarrow> tensor list) \<Rightarrow> image \<Rightarrow> image \<Rightarrow> 'o \<Rightarrow>
   error + (tensor list \<times> tensor \<times> 'o train_state)" where
  "training_init act_dtype nan_pixel model style_image content_image opt =
     (case get_features act_dtype model style_image of
        Inl e \<Rightarrow> Inl e
      | Inr (style_targets, _) \<Rightarrow>
          (case get_features act_dtype model content_image of
             Inl e \<Rightarrow> Inl e
           | Inr (_, content_targets) \<Rightarrow>
               (case array_to_img nan_pixel (tf_squeeze content_image) of
                  Inl e \<Rightarrow> Inl e
                | Inr img \<Rightarrow>
                    Inr (style_targets, content_targets,
                         \<lparr>generated_image = content_image, optimizer = opt, images = [img]\<rparr>))))"

definition training ::
  "dtype \<Rightarrow> nat \<Rightarrow> (image \<Rightarrow> tensor list) \<Rightarrow> ((image \<Rightarrow> error + real) \<Rightarrow> image \<Rightarrow> image) \<Rightarrow>
   ('o \<Rightarrow> image \<Rightarrow> image \<Rightarrow> 'o \<times> image) \<Rightarrow> image \<Rightarrow> image \<Rightarrow> 'o \<Rightarrow> int \<Rightarrow>
   error + pil_image list" where
  "training act_dtype nan_pixel model gradient apply_gradients style_image content_image
       opt epochs =
     (case training_init act_dtype nan_pixel model style_image content_image opt of
        Inl e \<Rightarrow> Inl e
      | Inr (style_targets, content_targets, s0) \<Rightarrow>
          (case training_loop act_dtype nan_pixel model gradient apply_gradients
                  style_targets content_targets (nat epochs) s0 of
             Inl e \<Rightarrow> Inl e
           | Inr s \<Rightarrow> Inr (images s)))"

subsection \<open>The sequence driver: \<open>inferOnVideo\<close> and \<open>inferOnImage\<close>\<close>

text \<open>
  A video as \<open>cv2.VideoCapture\<close> presents it: the frame count it reports and the frames
  \<open>read()\<close> delivers one by one. A stream that cannot be opened reports no frame and
  delivers none; opening never raises.
\<close>

record 'f video =
  frame_count :: int
  frames :: "'f list"

text \<open>
  The frame loop at lines 243 to 318. \<open>n\<close> counts the passes \<open>range(number_of_frame)\<close>
  still allows, \<open>cap\<close> is what the stream has left, \<open>i\<close> the counter of frames read.
  Lines 254 to 316 (resize, \<open>training\<close>, thumbnails) are the parameter \<open>process\<close>; its
  state \<open>'s\<close> stands for what these lines carry from frame to frame: the optimizer object
  and the variable \<open>resize\<close>.
\<close>

fun frame_loop ::
  "('s \<Rightarrow> 'f \<Rightarrow> error + ('s \<times> 'img)) \<Rightarrow> int \<Rightarrow> int \<Rightarrow> int \<Rightarrow>
   nat \<Rightarrow> 'f list \<Rightarrow> int \<Rightarrow> 's \<Rightarrow> 'img list \<Rightarrow> error + ('s \<times> 'img list)" where
  "frame_loop process start_idx end_idx skip 0 cap i s imgs = Inr (s, imgs)"
| "frame_loop process start_idx end_idx skip (Suc n) [] i s imgs = Inr (s, imgs)"
| "frame_loop process start_idx end_idx skip (Suc n) (frame # cap) i s imgs =
     (let i' = i + 1
      in if i' \<le> start_idx then frame_loop process start_idx end_idx skip n cap i' s imgs
         else if end_idx \<ge> 0 \<and> i' > end_idx then Inr (s, imgs)
         else if skip = 0 then Inl ZeroDivisionError
         else if i' mod skip \<noteq> 0 then frame_loop process start_idx end_idx skip n cap i' s imgs
         else (case process s frame of
                 Inl e \<Rightarrow> Inl e
               | Inr (s', image_result) \<Rightarrow>
                   frame_loop process start_idx end_idx skip n cap i' s' (imgs @ [image_result])))"

text \<open>
  \<open>inferOnVideo\<close>: the file system maps a path to the image stored there, \<open>videos\<close> a path
  to the stream \<open>cv2.VideoCapture\<close> opens. The result is what is saved: the output path
  and the frames of the animation. Lines 230 to 234, which resize the style image and
  render its thumbnail (a \<open>ValueError\<close> on a grey-level style image), are not modelled:
  the style image is taken as the file system holds it.
\<close>

definition inferOnVideo ::
  "(string \<rightharpoonup> 'p) \<Rightarrow> (string \<Rightarrow> 'f video) \<Rightarrow> ('p \<Rightarrow> 's \<Rightarrow> 'f \<Rightarrow> error + ('s \<times> 'img)) \<Rightarrow>
   string \<Rightarrow> 's \<Rightarrow> string \<Rightarrow> string \<Rightarrow> int \<Rightarrow> int \<Rightarrow> int \<Rightarrow> error + (string \<times> 'img list)" where
  "inferOnVideo fs videos process style_image_path s0 video_path out_path start_idx end_idx skip =
     (case fs style_image_path of
        None \<Rightarrow> Inl FileNotFoundError
      | Some style_image \<Rightarrow>
          (let cap = videos video_path;
               number_of_frame = (if end_idx \<noteq> - 1 then end_idx else frame_count cap)
           in case frame_loop (process style_image) start_idx end_idx skip
                     (nat number_of_frame) (frames cap) 0 s0 [] of
                Inl e \<Rightarrow> Inl e
              | Inr (s, imgs) \<Rightarrow> (if imgs = [] then Inl IndexError else Inr (out_path, imgs))))"

text \<open>
  The frames the specification selects, by their position in the stream counted from 0,
  and the processing of a list of frames in order.
\<close>

definition frames_in_range :: "int \<Rightarrow> int \<Rightarrow> 'f video \<Rightarrow> nat list" where
  "frames_in_range start_idx end_idx cap =
     filter (\<lambda>k. start_idx \<le> int k)
       [0..<min (nat (if end_idx \<noteq> - 1 then end_idx else frame_count cap)) (length (frames cap))]"

definition selected_frames :: "int \<Rightarrow> int \<Rightarrow> int \<Rightarrow> 'f video \<Rightarrow> nat list" where
  "selected_frames start_idx end_idx skip cap =
     filter (\<lambda>k. (int k + 1) mod skip = 0) (frames_in_range start_idx end_idx cap)"

fun process_all ::
  "('s \<Rightarrow> 'f \<Rightarrow> error + ('s \<times> 'img)) \<Rightarrow> 's \<Rightarrow> 'f list \<Rightarrow> error + ('s \<times> 'img list)" where
  "process_all process s [] = Inr (s, [])"
| "process_all process s (frame # rest) =
     (case process s frame of
        Inl e \<Rightarrow> Inl e
      | Inr (s', image_result) \<Rightarrow>
          (case process_all process s' rest of
             Inl e \<Rightarrow> Inl e
           | Inr (s'', imgs) \<Rightarrow> Inr (s'', image_result # imgs)))"

text \<open>
  \<open>inferOnImage\<close>: lines 354 to 418 (resize, \<open>training\<close>, thumbnails) are the parameter
  \<open>stylize\<close>, applied to the style image, the content image and \<open>resize\<close>. The result is what
  is saved, and where.
\<close>

definition inferOnImage ::
  "(string \<rightharpoonup> 'p) \<Rightarrow> ('p \<Rightarrow> 'p \<Rightarrow> (nat \<times> nat) option \<Rightarrow> error + 'img) \<Rightarrow>
   string \<Rightarrow> string \<Rightarrow> string \<Rightarrow> (nat \<times> nat) option \<Rightarrow> error + (string \<times> 'img)" where
  "inferOnImage fs stylize style_image_path image_path out_path resize =
     (case fs ''imgs/content.jpg'' of
        None \<Rightarrow> Inl FileNotFoundError
      | Some content_image_init \<Rightarrow>
          (case fs style_image_path of
             None \<Rightarrow> Inl FileNotFoundError
           | Some style_image \<Rightarrow>
               (case stylize style_image content_image_init resize of
                  Inl e \<Rightarrow> Inl e
                | Inr image_result \<Rightarrow> Inr (out_path, image_result))))"

subsection \<open>Sample inputs\<close>

text \<open>
  Small concrete inputs on which the results below are evaluated: a \<open>2 \<times> 2\<close> RGB content
  and style image, a stand-in network with one style output and the scaled input as its
  content output, a stand-in gradient that is 100 everywhere, plain gradient descent
  with step 1 that counts its calls, and an optimizer that hands back NaN for the first
  sample.
\<close>

definition ex_content :: image where
  "ex_content = \<lparr>shape = [1, 2, 2, 3],
                  vals = map Finite [0, 255, 51, 102, 153, 204, 0, 0, 0, 255, 255, 255]\<rparr>"

definition ex_style :: image where
  "ex_style = \<lparr>shape = [1, 2, 2, 3],
                vals = map Finite [255, 0, 0, 0, 255, 0, 0, 0, 255, 255, 255, 255]\<rparr>"

definition ex_model :: "image \<Rightarrow> tensor list" where
  "ex_model x = [\<lparr>shape = [1, 1, 1, 1], vals = [1]\<rparr>,
                 \<lparr>shape = shape x, vals = map sample_value (vals x)\<rparr>]"

definition ex_gradient :: "(image \<Rightarrow> error + real) \<Rightarrow> image \<Rightarrow> image" where
  "ex_gradient f x = x\<lparr>vals := map (\<lambda>v. Finite 100) (vals x)\<rparr>"

definition ex_apply_gradients :: "nat \<Rightarrow> image \<Rightarrow> image \<Rightarrow> nat \<times> image" where
  "ex_apply_gradients n g x =
     (Suc n,
      x\<lparr>vals := map2 (\<lambda>v d. Finite (sample_value v - sample_value d)) (vals x) (vals g)\<rparr>)"

definition ex_apply_gradients_nan :: "nat \<Rightarrow> image \<Rightarrow> image \<Rightarrow> nat \<times> image" where
  "ex_apply_gradients_nan n g x = (Suc n, x\<lparr>vals := (vals x)[0 := NaN]\<rparr>)"

text \<open>
  A stream of five frames (numbers stand for pictures), a file system holding one style
  image, and a frame processor that adds the style to the frame and counts its calls.
\<close>

definition ex_videos :: "string \<Rightarrow> nat video" where
  "ex_videos path = \<lparr>frame_count = 5, frames = [10, 20, 30, 40, 50]\<rparr>"

definition ex_fs :: "string \<rightharpoonup> nat" where
  "ex_fs = [''style.jpg'' \<mapsto> 1000]"

definition ex_process :: "nat \<Rightarrow> nat \<Rightarrow> nat \<Rightarrow> error + (nat \<times> nat)" where
  "ex_process style_image s frame = Inr (Suc s, style_image + frame)"

text \<open>A \<open>300 \<times> 300\<close> RGB image whose every sample is 100.\<close>

definition gray_content :: image where
  "gray_content = \<lparr>shape = [1, 300, 300, 3], vals = replicate 270000 (Finite 100)\<rparr>"

section \<open>Construction\<close>

lemma transplant_step_Inr:
  assumes "transplant_step B i (s, ls) = Inr (s', ls')"
  shows "i < length ls \<and> s' = (if i \<ge> 13 then 1 else s)
     \<and> s' < length B \<and> (if i \<ge> 13 then i - 13 else i) < length (B ! s')
     \<and> map shape (weights (ls ! i)) = map shape (weights (B ! s' ! (if i \<ge> 13 then i - 13 else i)))
     \<and> ls' = ls[i := (ls ! i)\<lparr>weights := weights (B ! s' ! (if i \<ge> 13 then i - 13 else i)), trainable := False\<rparr>]"
  using assms
  by (auto simp: transplant_step_def get_layer_def set_weights_def Let_def
      split: if_splits sum.splits)

lemma transplant_loop_Inr:
  assumes "transplant_loop B is (s, ls) = Inr (s', ls')"
    and "sorted is" and "distinct is"
    and "(\<exists>i\<in>set is. i < 13) \<longrightarrow> s = 0"
  shows "length ls' = length ls
     \<and> (\<forall>j. j \<notin> set is \<longrightarrow> ls' ! j = ls ! j)
     \<and> (\<forall>j\<in>set is. j < length ls
           \<and> weights (ls' ! j) = weights (ssd_source B j) \<and> \<not> trainable (ls' ! j))"
  using assms
proof (induction "is" arbitrary: s ls)
  case Nil
  then show ?case by simp
next
  case (Cons i rest)
  from Cons.prems(1) obtain s1 ls1 where
    st: "transplant_step B i (s, ls) = Inr (s1, ls1)"
    and lp: "transplant_loop B rest (s1, ls1) = Inr (s', ls')"
    by (auto split: sum.splits)
  note S = transplant_step_Inr[OF st]
  have gt: "\<forall>j\<in>set rest. i < j" using Cons.prems(2,3) by (auto simp: le_less)
  have s0: "(\<exists>j\<in>set rest. j < 13) \<longrightarrow> s1 = 0"
    using gt S Cons.prems(4) by (auto split: if_splits)
  have IH: "length ls' = length ls1
     \<and> (\<forall>j. j \<notin> set rest \<longrightarrow> ls' ! j = ls1 ! j)
     \<and> (\<forall>j\<in>set rest. j < length ls1
           \<and> weights (ls' ! j) = weights (ssd_source B j) \<and> \<not> trainable (ls' ! j))"
    using Cons.IH[OF lp] Cons.prems(2,3) s0 by simp
  have len: "length ls1 = length ls" using S by simp
  have inot: "i \<notin> set rest" using Cons.prems(3) by simp
  have at_i: "ls' ! i = (ls ! i)\<lparr>weights := weights (ssd_source B i), trainable := False\<rparr>"
  proof -
    have "ls' ! i = ls1 ! i" using IH inot by simp
    moreover have "s1 = (if i \<ge> 13 then 1 else 0)" using S Cons.prems(4) by (auto split: if_splits)
    ultimately show ?thesis using S by (auto simp: ssd_source_def)
  qed
  show ?case
    using IH len at_i S gt by (auto simp: nth_list_update)
qed


lemma transplant_step_ok:
  assumes "i < length ls" "i < 13 \<longrightarrow> s = 0"
    and "if i < 13 then 0 < length B \<and> i < length (B ! 0)
         else 1 < length B \<and> i - 13 < length (B ! 1)"
    and "map shape (weights (ls ! i)) = map shape (weights (ssd_source B i))"
  shows "transplant_step B i (s, ls) =
     Inr (if i \<ge> 13 then 1 else 0,
          ls[i := (ls ! i)\<lparr>weights := weights (ssd_source B i), trainable := False\<rparr>])"
  using assms
  by (auto simp: transplant_step_def get_layer_def set_weights_def ssd_source_def Let_def
      split: if_splits)

lemma transplant_loop_ok:
  assumes "sorted is" and "distinct is"
    and "(\<exists>i\<in>set is. i < 13) \<longrightarrow> s = 0"
    and "\<forall>i\<in>set is. i < length ls
         \<and> (if i < 13 then 0 < length B \<and> i < length (B ! 0)
              else 1 < length B \<and> i - 13 < length (B ! 1))
         \<and> map shape (weights (ls ! i)) = map shape (weights (ssd_source B i))"
  shows "\<exists>st. transplant_loop B is (s, ls) = Inr st"
  using assms
proof (induction "is" arbitrary: s ls)
  case Nil
  then show ?case by simp
next
  case (Cons i rest)
  let ?ls1 = "ls[i := (ls ! i)\<lparr>weights := weights (ssd_source B i), trainable := False\<rparr>]"
  let ?s1 = "if i \<ge> 13 then 1 else (0::nat)"
  have st: "transplant_step B i (s, ls) = Inr (?s1, ?ls1)"
    using Cons.prems(3,4) by (intro transplant_step_ok) auto
  have gt: "\<forall>j\<in>set rest. i < j" using Cons.prems(1,2) by (auto simp: le_less)
  have "\<exists>st. transplant_loop B rest (?s1, ?ls1) = Inr st"
  proof (rule Cons.IH)
    show "sorted rest" "distinct rest" using Cons.prems(1,2) by auto
    show "(\<exists>i\<in>set rest. i < 13) \<longrightarrow> ?s1 = 0" using gt by auto
    show "\<forall>j\<in>set rest. j < length ?ls1
         \<and> (if j < 13 then 0 < length B \<and> j < length (B ! 0)
              else 1 < length B \<and> j - 13 < length (B ! 1))
         \<and> map shape (weights (?ls1 ! j)) = map shape (weights (ssd_source B j))"
      using Cons.prems(4) gt by (auto simp: nth_list_update)
  qed
  then show ?case using st by simp
qed


text \<open>
  Claim C4. Whenever the transplant returns, the target keeps its number of layers and every
  target layer \<open>i\<close> holds the parameters of backbone sub-stack 0 layer \<open>i\<close> when \<open>i < 13\<close>
  and of sub-stack 1 layer \<open>i - 13\<close> when \<open>i \<ge> 13\<close>, and is not trainable; it does return
  when these source layers exist and their parameter shapes agree with the target's; and
  the state right after the pass for layer \<open>i\<close> already has that layer copied and frozen.
\<close>

theorem weight_transplant:
  "(transplant_ok B ls \<longrightarrow> (\<exists>ls'. transplant B ls = Inr ls'))
   \<and> (\<forall>ls'. transplant B ls = Inr ls' \<longrightarrow>
         length ls' = length ls
         \<and> (\<forall>i<length ls. weights (ls' ! i) = weights (ssd_source B i) \<and> \<not> trainable (ls' ! i)))
   \<and> (\<forall>i s s1 ls1. transplant_step B i (s, ls) = Inr (s1, ls1) \<longrightarrow>
         weights (ls1 ! i) = weights (B ! s1 ! (if i \<ge> 13 then i - 13 else i))
         \<and> \<not> trainable (ls1 ! i))"
proof (intro conjI allI impI)
  assume ok: "transplant_ok B ls"
  have "\<exists>st. transplant_loop B [0..<length ls] (0, ls) = Inr st"
    using ok by (intro transplant_loop_ok) (auto simp: transplant_ok_def list_all_iff)
  then show "\<exists>ls'. transplant B ls = Inr ls'"
    by (auto simp: transplant_def)
next
  fix ls' assume r: "transplant B ls = Inr ls'"
  then obtain s' where lp: "transplant_loop B [0..<length ls] (0, ls) = Inr (s', ls')"
    by (auto simp: transplant_def split: sum.splits)
  have P: "length ls' = length ls
     \<and> (\<forall>j\<in>set [0..<length ls]. j < length ls
           \<and> weights (ls' ! j) = weights (ssd_source B j) \<and> \<not> trainable (ls' ! j))"
    using transplant_loop_Inr[OF lp] by simp
  show "length ls' = length ls" using P by simp
  fix i assume "i < length ls"
  then show "weights (ls' ! i) = weights (ssd_source B i)" "\<not> trainable (ls' ! i)"
    using P by auto
next
  fix i s s1 ls1 assume st: "transplant_step B i (s, ls) = Inr (s1, ls1)"
  note S = transplant_step_Inr[OF st]
  show "weights (ls1 ! i) = weights (B ! s1 ! (if i \<ge> 13 then i - 13 else i))"
    "\<not> trainable (ls1 ! i)"
    using S by auto
qed

theorem weight_transplant_witness:
  "transplant_ok
     [map (\<lambda>k. \<lparr>weights = [\<lparr>shape = [1], vals = [real k]\<rparr>], trainable = True\<rparr>) [0..<13],
      map (\<lambda>k. \<lparr>weights = [\<lparr>shape = [1], vals = [100 + real k]\<rparr>], trainable = True\<rparr>) [0..<2]]
     (replicate 15 \<lparr>weights = [\<lparr>shape = [1], vals = [0]\<rparr>], trainable = True\<rparr>)
   \<and> (\<exists>ls'. transplant
     [map (\<lambda>k. \<lparr>weights = [\<lparr>shape = [1], vals = [real k]\<rparr>], trainable = True\<rparr>) [0..<13],
      map (\<lambda>k. \<lparr>weights = [\<lparr>shape = [1], vals = [100 + real k]\<rparr>], trainable = True\<rparr>) [0..<2]]
     (replicate 15 \<lparr>weights = [\<lparr>shape = [1], vals = [0]\<rparr>], trainable = True\<rparr>) = Inr ls'
     \<and> length ls' = 15
     \<and> weights (ls' ! 12) = [\<lparr>shape = [1], vals = [12]\<rparr>] \<and> \<not> trainable (ls' ! 12)
     \<and> weights (ls' ! 14) = [\<lparr>shape = [1], vals = [101]\<rparr>] \<and> \<not> trainable (ls' ! 14))"
proof -
  let ?B = "[map (\<lambda>k. \<lparr>weights = [\<lparr>shape = [1], vals = [real k]\<rparr>], trainable = True\<rparr>) [0..<13],
      map (\<lambda>k. \<lparr>weights = [\<lparr>shape = [1], vals = [100 + real k]\<rparr>], trainable = True\<rparr>) [0..<2]]"
  let ?ls = "replicate 15 \<lparr>weights = [\<lparr>shape = [1], vals = [0]\<rparr>], trainable = True\<rparr>"
  have ok: "transplant_ok ?B ?ls"
    by (auto simp: transplant_ok_def list_all_iff ssd_source_def)
  have s12: "weights (ssd_source ?B 12) = [\<lparr>shape = [1], vals = [12]\<rparr>]"
    by (simp add: ssd_source_def)
  have s14: "weights (ssd_source ?B 14) = [\<lparr>shape = [1], vals = [101]\<rparr>]"
    by (simp add: ssd_source_def nth_Cons')
  from weight_transplant[of ?B ?ls] ok obtain ls' where
    r: "transplant ?B ?ls = Inr ls'" by blast
  with weight_transplant[of ?B ?ls] have
    "length ls' = 15" "weights (ls' ! 12) = weights (ssd_source ?B 12)" "\<not> trainable (ls' ! 12)"
    "weights (ls' ! 14) = weights (ssd_source ?B 14)" "\<not> trainable (ls' ! 14)"
    by auto
  with ok r s12 s14 show ?thesis by simp
qed

text \<open>
  Claim C9. A precision selector other than 32 and 16 makes the constructor raise
  \<open>Exception('floatType should be either 32 or 16')\<close> before anything else is built,
  whatever the rest of the construction would do; 32 selects \<open>float32\<close> and 16 selects
  \<open>float16\<close>, and the constructed object carries that type.
\<close>

theorem floatType_selector:
  "(ft \<noteq> 32 \<and> ft \<noteq> 16 \<longrightarrow> init build ft = Inl (Exception ''floatType should be either 32 or 16''))
   \<and> select_floatType 32 = Inr Float32
   \<and> select_floatType 16 = Inr Float16
   \<and> (\<forall>B ls ls'. build Float32 = Inr (B, ls) \<and> transplant B ls = Inr ls' \<longrightarrow>
         init build 32 = Inr \<lparr>floatType = Float32, VGG16_tilStage5 = ls'\<rparr>)
   \<and> (\<forall>B ls ls'. build Float16 = Inr (B, ls) \<and> transplant B ls = Inr ls' \<longrightarrow>
         init build 16 = Inr \<lparr>floatType = Float16, VGG16_tilStage5 = ls'\<rparr>)"
  by (simp add: init_def select_floatType_def)

theorem floatType_selector_witness:
  "(8::int) \<noteq> 32 \<and> (8::int) \<noteq> 16
   \<and> init (\<lambda>t. Inr ([], [])) 8 = Inl (Exception ''floatType should be either 32 or 16'')
   \<and> init (\<lambda>t. Inr ([], [])) 32 = Inr \<lparr>floatType = Float32, VGG16_tilStage5 = []\<rparr>
   \<and> init (\<lambda>t. Inr ([], [])) 16 = Inr \<lparr>floatType = Float16, VGG16_tilStage5 = []\<rparr>"
proof -
  have t: "transplant [] [] = Inr []" by (simp add: transplant_def)
  show ?thesis
    using floatType_selector[of 8 "\<lambda>t. Inr ([], [])"] t by simp
qed

section \<open>Gram matrices and features\<close>

lemma concat_grid_length:
  "length (concat (map (\<lambda>c. map (f c) [0..<D]) [0..<C])) = C * D"
  by (induction C) simp_all

lemma concat_grid_nth:
  "c < C \<Longrightarrow> d < D \<Longrightarrow> concat (map (\<lambda>c. map (f c) [0..<D]) [0..<C]) ! (c * D + d) = f c d"
proof (induction C)
  case 0
  then show ?case by simp
next
  case (Suc C)
  show ?case
  proof (cases "c < C")
    case True
    then have "c * D + d < C * D"
      using Suc.prems(2)
      by (metis add_less_cancel_left less_le_trans mult_Suc mult_le_mono1 Suc_leI add.commute)
    then show ?thesis using Suc True by (simp add: nth_append concat_grid_length)
  next
    case False
    then have "c = C" using Suc.prems(1) by simp
    then show ?thesis using Suc.prems(2) by (simp add: nth_append concat_grid_length)
  qed
qed

lemma gram_calc_value:
  assumes "shape x = [1, H, W, C]"
  shows "gram_calc Float32 x =
     Inr \<lparr>shape = [1, C, C],
          vals = map (\<lambda>v. v / real (H * W))
            (concat (map (\<lambda>c. map (\<lambda>d.
                (\<Sum>i\<leftarrow>[0..<H]. \<Sum>j\<leftarrow>[0..<W]. at4 x 0 i j c * at4 x 0 i j d)) [0..<C]) [0..<C]))\<rparr>"
  using assms by (simp add: gram_calc_def einsum_bijc_bijd_bcd_def tf_divide_def)

lemma gram_calc_entry:
  assumes "shape x = [1, H, W, C]" and "gram_calc Float32 x = Inr g" and "c < C" and "d < C"
  shows "at3 g 0 c d = (\<Sum>i<H. \<Sum>j<W. at4 x 0 i j c * at4 x 0 i j d) / real (H * W)"
proof -
  let ?f = "\<lambda>c d. (\<Sum>i\<leftarrow>[0..<H]. \<Sum>j\<leftarrow>[0..<W]. at4 x 0 i j c * at4 x 0 i j d)"
  have g: "g = \<lparr>shape = [1, C, C],
          vals = map (\<lambda>v. v / real (H * W)) (concat (map (\<lambda>c. map (?f c) [0..<C]) [0..<C]))\<rparr>"
    using gram_calc_value[OF assms(1)] assms(2) by simp
  have lt: "c * C + d < C * C"
    using assms(3,4)
    by (metis add_less_cancel_left less_le_trans mult_Suc mult_le_mono1 Suc_leI add.commute)
  have "at3 g 0 c d = ?f c d / real (H * W)"
    using lt assms(3,4) by (simp add: g at3_def concat_grid_length concat_grid_nth)
  also have "?f c d = (\<Sum>i<H. \<Sum>j<W. at4 x 0 i j c * at4 x 0 i j d)"
    by (simp add: interv_sum_list_conv_sum_set_nat atLeast0LessThan)
  finally show ?thesis .
qed


lemma gram_calc_shape:
  assumes "shape x = [1, H, W, C]" and "gram_calc Float32 x = Inr g"
  shows "shape g = [1, C, C] \<and> wf_tensor g"
  using gram_calc_value[OF assms(1)] assms(2)
  by (auto simp: wf_tensor_def concat_grid_length)

lemma mapE_Inr:
  "mapE f xs = Inr ys \<Longrightarrow> length ys = length xs \<and> (\<forall>k<length xs. f (xs ! k) = Inr (ys ! k))"
proof (induction xs arbitrary: ys)
  case Nil
  then show ?case by simp
next
  case (Cons x xs)
  from Cons.prems obtain y ys' where
    y: "f x = Inr y" and r: "mapE f xs = Inr ys'" and ys: "ys = y # ys'"
    by (auto split: sum.splits)
  from Cons.IH[OF r] y ys show ?case
    by (auto simp: nth_Cons')
qed

lemma gram_calc_float16:
  assumes "length (shape x) = 4"
  shows "gram_calc Float16 x = Inl TypeError"
  using assms by (simp add: gram_calc_def einsum_bijc_bijd_bcd_def)

text \<open>
  On \<open>float32\<close> activations the gram computation is what the specification says: for a
  tensor of shape \<open>(1, H, W, C)\<close> with \<open>H, W > 0\<close> the result has shape \<open>(1, C, C)\<close> and its entry
  \<open>(c, d)\<close> is the sum over all positions \<open>(i, j)\<close> of the product of channels \<open>c\<close> and
  \<open>d\<close>, divided by \<open>H * W\<close>; it is symmetric. Whenever \<open>get_features\<close> returns, its
  second component is the last output of the network as it is, and its first component
  holds the gram matrices of the other outputs, in order.
\<close>

lemma gram_of_float32_activation:
  assumes "shape x = [1, H, W, C]" and "wf_tensor x" and "0 < H" and "0 < W"
  shows "\<exists>g. gram_calc Float32 x = Inr g \<and> shape g = [1, C, C] \<and> wf_tensor g
         \<and> (\<forall>c<C. \<forall>d<C.
               at3 g 0 c d = (\<Sum>i<H. \<Sum>j<W. at4 x 0 i j c * at4 x 0 i j d) / real (H * W))"
proof -
  obtain g where g: "gram_calc Float32 x = Inr g"
    using gram_calc_value[OF assms(1)] by blast
  show ?thesis
    using g gram_calc_shape[OF assms(1) g] gram_calc_entry[OF assms(1) g] by blast
qed

lemma gram_of_float32_symmetric:
  assumes "shape x = [1, H, W, C]" and "wf_tensor x" and "0 < H" and "0 < W"
  shows "\<exists>g. gram_calc Float32 x = Inr g \<and> (\<forall>c<C. \<forall>d<C. at3 g 0 c d = at3 g 0 d c)"
proof -
  obtain g where g: "gram_calc Float32 x = Inr g"
    using gram_calc_value[OF assms(1)] by blast
  have "at3 g 0 c d = at3 g 0 d c" if "c < C" "d < C" for c d
    using gram_calc_entry[OF assms(1) g that] gram_calc_entry[OF assms(1) g that(2,1)]
    by (simp add: mult.commute)
  then show ?thesis using g by blast
qed

lemma get_features_content_unmodified:
  assumes "get_features act_dtype model data = Inr (style_features, content_feature)"
  shows "content_feature = last (model (image_divide data 255))
       \<and> length style_features = length (model (image_divide data 255)) - 1
       \<and> (\<forall>k<length style_features.
             gram_calc act_dtype (model (image_divide data 255) ! k) = Inr (style_features ! k))"
proof -
  let ?outputs = "model (image_divide data 255)"
  from assms have m: "mapE (gram_calc act_dtype) (butlast ?outputs) = Inr style_features"
    and c: "content_feature = last ?outputs"
    by (auto simp: get_features_def Let_def split: sum.splits if_splits)
  show ?thesis
    using mapE_Inr[OF m] c by (auto simp: nth_butlast)
qed

text \<open>
  Claim C2 fails on the code for \<open>float16\<close> activations, which the network yields when
  the model was constructed with the precision selector 16: the einsum of \<open>float16\<close>
  data is divided by a \<open>float32\<close> tensor and \<open>gram_calc\<close> raises \<open>TypeError\<close> instead of
  returning the \<open>(1, C, C)\<close> matrix it returns for the same data in \<open>float32\<close>; so
  \<open>get_features\<close> raises too.
\<close>

theorem gram_calc_float16_type_error:
  "gram_calc Float16 \<lparr>shape = [1, 2, 1, 2], vals = [1, 2, 3, 4]\<rparr> = Inl TypeError
   \<and> gram_calc Float32 \<lparr>shape = [1, 2, 1, 2], vals = [1, 2, 3, 4]\<rparr>
       = Inr \<lparr>shape = [1, 2, 2], vals = [5, 7, 7, 10]\<rparr>
   \<and> get_features Float16 ex_model ex_content = Inl TypeError"
  by (simp add: get_features_def gram_calc_def einsum_bijc_bijd_bcd_def tf_divide_def at4_def
      ex_model_def upt_rec)


section \<open>The loss\<close>

lemma mapE_all_Inr:
  "(\<And>x. x \<in> set xs \<Longrightarrow> f x = Inr (g x)) \<Longrightarrow> mapE f xs = Inr (map g xs)"
  by (induction xs) simp_all

lemma sum_list_squared_differences:
  fixes as bs :: "real list"
  assumes "length as = length bs"
  shows "sum_list (map (\<lambda>v. v * v) (map2 (-) as bs)) = (\<Sum>k<length as. (as ! k - bs ! k)\<^sup>2)"
proof -
  have "sum_list (map (\<lambda>v. v * v) (map2 (-) as bs))
      = (\<Sum>k = 0..<length as. map (\<lambda>v. v * v) (map2 (-) as bs) ! k)"
    using assms by (simp add: sum_list_sum_nth)
  also have "\<dots> = (\<Sum>k = 0..<length as. (as ! k - bs ! k)\<^sup>2)"
    using assms by (intro sum.cong) (simp_all add: power2_eq_square)
  finally show ?thesis by (simp add: atLeast0LessThan)
qed

lemma squared_difference_mean:
  assumes "shape a = shape b" and "wf_tensor a" and "wf_tensor b"
  shows "(case tf_subtract a b of Inl e \<Rightarrow> Inl e | Inr d \<Rightarrow> Inr (reduce_mean (tf_square d)))
     = Inr (mean_squared_difference a b)"
proof -
  have len: "length (vals a) = length (vals b)"
    using assms by (simp add: wf_tensor_def)
  show ?thesis
    using assms(1) len sum_list_squared_differences[OF len]
    by (simp add: tf_subtract_def reduce_mean_def tf_square_def mean_squared_difference_def)
qed

lemma squared_difference_sum:
  assumes "shape a = shape b" and "wf_tensor a" and "wf_tensor b"
  shows "(case tf_subtract a b of Inl e \<Rightarrow> Inl e
          | Inr d \<Rightarrow> add_n [0.5 * reduce_sum (tf_square d)])
     = Inr (content_loss_spec a b)"
proof -
  have len: "length (vals a) = length (vals b)"
    using assms by (simp add: wf_tensor_def)
  show ?thesis
    using assms(1) len sum_list_squared_differences[OF len]
    by (simp add: tf_subtract_def reduce_sum_def tf_square_def content_loss_spec_def add_n_def)
qed

lemma sum_list_zip_nth:
  assumes "length xs = length ys"
  shows "sum_list (map (\<lambda>(x, y). h x y) (zip xs ys)) = (\<Sum>l<length xs. h (xs ! l) (ys ! l))"
proof -
  have "sum_list (map (\<lambda>(x, y). h x y) (zip xs ys))
      = (\<Sum>l = 0..<length xs. map (\<lambda>(x, y). h x y) (zip xs ys) ! l)"
    using assms by (simp add: sum_list_sum_nth)
  also have "\<dots> = (\<Sum>l = 0..<length xs. h (xs ! l) (ys ! l))"
    using assms by (intro sum.cong) simp_all
  finally show ?thesis by (simp add: atLeast0LessThan)
qed

lemma get_loss_value:
  assumes ne: "style_feature \<noteq> []"
    and len: "length style_feature = length style_target"
    and st: "\<forall>l<length style_feature.
        shape (style_feature ! l) = shape (style_target ! l)
        \<and> wf_tensor (style_feature ! l) \<and> wf_tensor (style_target ! l)"
    and ct: "shape content_feature = shape content_target"
      "wf_tensor content_feature" "wf_tensor content_target"
  shows "get_loss style_target style_feature content_target content_feature
     = Inr (1.0 * style_loss_spec style_feature style_target
            + (1 / 10 ^ 30) * content_loss_spec content_feature content_target)"
proof -
  let ?f = "\<lambda>(features, targets).
      case tf_subtract features targets of
        Inl e \<Rightarrow> Inl e
      | Inr d \<Rightarrow> Inr (reduce_mean (tf_square d))"
  let ?g = "\<lambda>(features, targets). mean_squared_difference features targets"
  have each: "?f p = Inr (?g p)" if "p \<in> set (zip style_feature style_target)" for p
  proof -
    from that obtain l where l: "l < length style_feature"
      and p: "p = (style_feature ! l, style_target ! l)"
      using len by (auto simp: set_zip)
    show ?thesis
      using st l squared_difference_mean[of "style_feature ! l" "style_target ! l"]
      by (simp add: p)
  qed
  have terms: "mapE ?f (zip style_feature style_target)
      = Inr (map ?g (zip style_feature style_target))"
    by (rule mapE_all_Inr) (rule each)
  have nonempty: "map ?g (zip style_feature style_target) \<noteq> []"
    using ne len by (cases style_feature; cases style_target) simp_all
  have style: "sum_list (map ?g (zip style_feature style_target))
      = style_loss_spec style_feature style_target"
    using sum_list_zip_nth[OF len, of mean_squared_difference]
    by (simp add: style_loss_spec_def)
  have content: "(case tf_subtract content_feature content_target of Inl e \<Rightarrow> Inl e
          | Inr d \<Rightarrow> add_n [0.5 * reduce_sum (tf_square d)])
     = Inr (content_loss_spec content_feature content_target)"
    by (rule squared_difference_sum) (rule ct)+
  then obtain d where d: "tf_subtract content_feature content_target = Inr d"
    and dv: "add_n [0.5 * reduce_sum (tf_square d)]
        = Inr (content_loss_spec content_feature content_target)"
    by (auto split: sum.splits)
  show ?thesis
    unfolding get_loss_def terms
    using nonempty style d dv by (simp add: add_n_def)
qed


text \<open>
  Claim C1, as amended. For every pair of non-empty sequences of style gram matrices of
  the same length, layer by layer of one shape, and every pair of content tensors of one
  shape, \<open>get_loss\<close> returns \<open>1.0\<close> times the style loss plus \<open>1e-30\<close> times the content
  loss, the style loss being the sum over the layers of the mean squared element-wise
  difference and the content loss half the sum of the squared element-wise differences.
  On empty sequences \<open>get_loss\<close> raises the \<open>ValueError\<close> of \<open>tf.add_n\<close>.
\<close>

theorem get_loss_weighted_sum:
  "(style_feature \<noteq> []
    \<and> list_all2 (\<lambda>g t. shape g = shape t \<and> wf_tensor g \<and> wf_tensor t) style_feature style_target
    \<and> shape content_feature = shape content_target
    \<and> wf_tensor content_feature \<and> wf_tensor content_target \<longrightarrow>
      get_loss style_target style_feature content_target content_feature
        = Inr (1.0 * style_loss_spec style_feature style_target
               + (1 / 10 ^ 30) * content_loss_spec content_feature content_target))
   \<and> get_loss [] [] content_target content_feature = Inl ValueError"
proof (intro conjI impI)
  assume h: "style_feature \<noteq> []
    \<and> list_all2 (\<lambda>g t. shape g = shape t \<and> wf_tensor g \<and> wf_tensor t) style_feature style_target
    \<and> shape content_feature = shape content_target
    \<and> wf_tensor content_feature \<and> wf_tensor content_target"
  then have len: "length style_feature = length style_target"
    and st: "\<forall>l<length style_feature.
        shape (style_feature ! l) = shape (style_target ! l)
        \<and> wf_tensor (style_feature ! l) \<and> wf_tensor (style_target ! l)"
    by (auto simp: list_all2_conv_all_nth)
  show "get_loss style_target style_feature content_target content_feature
        = Inr (1.0 * style_loss_spec style_feature style_target
               + (1 / 10 ^ 30) * content_loss_spec content_feature content_target)"
    using h by (intro get_loss_value len st) simp_all
next
  show "get_loss [] [] content_target content_feature = Inl ValueError"
    by (simp add: get_loss_def add_n_def)
qed

theorem get_loss_weighted_sum_witness:
  "[\<lparr>shape = [1, 1, 2], vals = [1, 3]\<rparr>, \<lparr>shape = [1, 1, 1], vals = [2]\<rparr>] \<noteq> []
   \<and> list_all2 (\<lambda>g t. shape g = shape t \<and> wf_tensor g \<and> wf_tensor t)
        [\<lparr>shape = [1, 1, 2], vals = [1, 3]\<rparr>, \<lparr>shape = [1, 1, 1], vals = [2]\<rparr>]
        [\<lparr>shape = [1, 1, 2], vals = [0, 1]\<rparr>, \<lparr>shape = [1, 1, 1], vals = [0]\<rparr>]
   \<and> wf_tensor \<lparr>shape = [1, 1, 1, 2], vals = [2, 0]\<rparr>
   \<and> wf_tensor \<lparr>shape = [1, 1, 1, 2], vals = [0, 0]\<rparr>
   \<and> get_loss [\<lparr>shape = [1, 1, 2], vals = [0, 1]\<rparr>, \<lparr>shape = [1, 1, 1], vals = [0]\<rparr>]
        [\<lparr>shape = [1, 1, 2], vals = [1, 3]\<rparr>, \<lparr>shape = [1, 1, 1], vals = [2]\<rparr>]
        \<lparr>shape = [1, 1, 1, 2], vals = [0, 0]\<rparr> \<lparr>shape = [1, 1, 1, 2], vals = [2, 0]\<rparr>
      = Inr (1.0 * style_loss_spec
               [\<lparr>shape = [1, 1, 2], vals = [1, 3]\<rparr>, \<lparr>shape = [1, 1, 1], vals = [2]\<rparr>]
               [\<lparr>shape = [1, 1, 2], vals = [0, 1]\<rparr>, \<lparr>shape = [1, 1, 1], vals = [0]\<rparr>]
             + (1 / 10 ^ 30) * content_loss_spec
                 \<lparr>shape = [1, 1, 1, 2], vals = [2, 0]\<rparr> \<lparr>shape = [1, 1, 1, 2], vals = [0, 0]\<rparr>)
   \<and> style_loss_spec
        [\<lparr>shape = [1, 1, 2], vals = [1, 3]\<rparr>, \<lparr>shape = [1, 1, 1], vals = [2]\<rparr>]
        [\<lparr>shape = [1, 1, 2], vals = [0, 1]\<rparr>, \<lparr>shape = [1, 1, 1], vals = [0]\<rparr>] = 13 / 2
   \<and> content_loss_spec
        \<lparr>shape = [1, 1, 1, 2], vals = [2, 0]\<rparr> \<lparr>shape = [1, 1, 1, 2], vals = [0, 0]\<rparr> = 2"
proof -
  let ?sf = "[\<lparr>shape = [1, 1, 2], vals = [1, 3]\<rparr>, \<lparr>shape = [1, 1, 1], vals = [2]\<rparr>]"
  let ?st = "[\<lparr>shape = [1, 1, 2], vals = [0, 1]\<rparr>, \<lparr>shape = [1, 1, 1], vals = [0]\<rparr>]"
  let ?cf = "\<lparr>shape = [1, 1, 1, 2], vals = [2, 0]\<rparr>"
  let ?ct = "\<lparr>shape = [1, 1, 1, 2], vals = [0, 0]\<rparr>"
  have h: "?sf \<noteq> []
    \<and> list_all2 (\<lambda>g t. shape g = shape t \<and> wf_tensor g \<and> wf_tensor t) ?sf ?st
    \<and> shape ?cf = shape ?ct \<and> wf_tensor ?cf \<and> wf_tensor ?ct"
    by (simp add: wf_tensor_def)
  have v: "get_loss ?st ?sf ?ct ?cf
      = Inr (1.0 * style_loss_spec ?sf ?st + (1 / 10 ^ 30) * content_loss_spec ?cf ?ct)"
    using get_loss_weighted_sum[of ?sf ?st ?cf ?ct] h by blast
  have s: "style_loss_spec ?sf ?st = 13 / 2"
    by (simp add: style_loss_spec_def mean_squared_difference_def lessThan_Suc
        numeral_2_eq_2)
  have c: "content_loss_spec ?cf ?ct = 2"
    by (simp add: content_loss_spec_def lessThan_Suc numeral_2_eq_2)
  show ?thesis using h v s c by blast
qed

text \<open>
  The claim C1 as it is worded covers the empty pair of sequences, where the sum over no
  layer would be \<open>0\<close>; there \<open>tf.add_n([])\<close> raises instead.
\<close>

theorem get_loss_empty_counterexample:
  "get_loss [] [] \<lparr>shape = [1, 1, 1, 1], vals = [0]\<rparr> \<lparr>shape = [1, 1, 1, 1], vals = [0]\<rparr>
     = Inl ValueError
   \<and> get_loss [] [] \<lparr>shape = [1, 1, 1, 1], vals = [0]\<rparr> \<lparr>shape = [1, 1, 1, 1], vals = [0]\<rparr>
     \<noteq> Inr (1.0 * style_loss_spec [] []
            + (1 / 10 ^ 30) * content_loss_spec \<lparr>shape = [1, 1, 1, 1], vals = [0]\<rparr>
                \<lparr>shape = [1, 1, 1, 1], vals = [0]\<rparr>)"
  by (simp add: get_loss_def add_n_def)

section \<open>The optimization loop\<close>



lemma training_step_Inr:
  assumes "training_step act_dtype nan_pixel model gradient apply_gradients st ct s = Inr s'"
  shows "generated_image s' =
           clip_by_value
             (snd (apply_gradients (optimizer s)
                (gradient (loss_of act_dtype model st ct) (generated_image s)) (generated_image s))) 0 255
       \<and> array_to_img nan_pixel (tf_squeeze (generated_image s')) = Inr (last (images s'))
       \<and> butlast (images s') = images s
       \<and> images s' \<noteq> []"
  using assms
  by (auto simp: training_step_def Let_def split: sum.splits)

lemma clip_by_value_range:
  "lo \<le> hi \<Longrightarrow> x \<in> set (vals (clip_by_value t lo hi)) \<Longrightarrow>
     x = NaN \<or> (\<exists>v. x = Finite v \<and> lo \<le> v \<and> v \<le> hi)"
  by (auto simp: clip_by_value_def clip_sample_def split: sample.splits)

lemma clip_by_value_nan:
  "i < length (vals t) \<Longrightarrow> (vals (clip_by_value t lo hi) ! i = NaN) = (vals t ! i = NaN)"
  by (simp add: clip_by_value_def clip_sample_def split: sample.splits)

lemma clip_by_value_length:
  "length (vals (clip_by_value t lo hi)) = length (vals t)"
  by (simp add: clip_by_value_def)

lemma training_loop_Suc_end:
  "training_loop act_dtype nan_pixel model gradient apply_gradients st ct (Suc n) s =
     (case training_loop act_dtype nan_pixel model gradient apply_gradients st ct n s of
        Inl e \<Rightarrow> Inl e
      | Inr s' \<Rightarrow> training_step act_dtype nan_pixel model gradient apply_gradients st ct s')"
proof (induction n arbitrary: s)
  case 0
  show ?case by (simp split: sum.splits)
next
  case (Suc n)
  show ?case
  proof (cases "training_step act_dtype nan_pixel model gradient apply_gradients st ct s")
    case (Inl e)
    then show ?thesis by simp
  next
    case (Inr s1)
    have "training_loop act_dtype nan_pixel model gradient apply_gradients st ct (Suc (Suc n)) s
        = training_loop act_dtype nan_pixel model gradient apply_gradients st ct (Suc n) s1"
      using Inr by simp
    also have "\<dots> = (case training_loop act_dtype nan_pixel model gradient apply_gradients st ct n s1 of
        Inl e \<Rightarrow> Inl e
      | Inr s' \<Rightarrow> training_step act_dtype nan_pixel model gradient apply_gradients st ct s')"
      by (rule Suc.IH)
    also have "training_loop act_dtype nan_pixel model gradient apply_gradients st ct n s1
        = training_loop act_dtype nan_pixel model gradient apply_gradients st ct (Suc n) s"
      using Inr by simp
    finally show ?thesis .
  qed
qed

lemma training_loop_images:
  assumes "training_loop act_dtype nan_pixel model gradient apply_gradients st ct n s = Inr s'"
  shows "length (images s') = length (images s) + n
       \<and> take (length (images s)) (images s') = images s"
  using assms
proof (induction n arbitrary: s)
  case 0
  then show ?case by simp
next
  case (Suc n)
  from Suc.prems obtain s1 where
    st: "training_step act_dtype nan_pixel model gradient apply_gradients st ct s = Inr s1"
    and lp: "training_loop act_dtype nan_pixel model gradient apply_gradients st ct n s1 = Inr s'"
    by (auto split: sum.splits)
  have im: "images s1 = images s @ [last (images s1)]"
    using training_step_Inr[OF st] by (metis append_butlast_last_id)
  then have len: "length (images s1) = Suc (length (images s))"
    by (metis length_append_singleton)
  from Suc.IH[OF lp] have
    l: "length (images s') = length (images s1) + n"
    and t: "take (length (images s1)) (images s') = images s1"
    by simp_all
  have "take (length (images s)) (images s')
      = take (length (images s)) (take (length (images s1)) (images s'))"
    using len by (simp add: min_def)
  also have "\<dots> = images s" using t im by (metis append_eq_conv_conj)
  finally show ?case using l len by simp
qed

lemma training_loop_clipped:
  assumes "training_loop act_dtype nan_pixel model gradient apply_gradients st ct n s = Inr s'" and "0 < n"
  shows "(\<forall>x\<in>set (vals (generated_image s')).
            x = NaN \<or> (\<exists>v. x = Finite v \<and> 0 \<le> v \<and> v \<le> 255))
       \<and> array_to_img nan_pixel (tf_squeeze (generated_image s')) = Inr (last (images s'))"
proof -
  from assms(2) obtain m where n: "n = Suc m" by (cases n) auto
  from assms(1) obtain s1 where
    st: "training_step act_dtype nan_pixel model gradient apply_gradients st ct s1 = Inr s'"
    unfolding n training_loop_Suc_end by (auto split: sum.splits)
  note S = training_step_Inr[OF st]
  have "x = NaN \<or> (\<exists>v. x = Finite v \<and> 0 \<le> v \<and> v \<le> 255)"
    if "x \<in> set (vals (generated_image s'))" for x
    using that S clip_by_value_range[of 0 255 x] by simp
  then show ?thesis using S by blast
qed


lemma array_to_img_returns:
  "(\<exists>a. array_to_img nan_pixel x = Inr a)
     \<longleftrightarrow> length (shape x) = 3 \<and> vals x \<noteq> [] \<and> shape x ! 2 \<in> {4, 3, 1}"
  by (auto simp: array_to_img_def Let_def)

lemma array_to_img_same_shape:
  assumes "array_to_img nan_pixel (tf_squeeze x) = Inr a"
    and "shape y = shape x" and "length (vals y) = length (vals x)"
  shows "\<exists>b. array_to_img nan_pixel (tf_squeeze y) = Inr b"
proof -
  have "length (shape (tf_squeeze x)) = 3 \<and> vals (tf_squeeze x) \<noteq> []
      \<and> shape (tf_squeeze x) ! 2 \<in> {4, 3, 1}"
    using assms(1) array_to_img_returns[where x = "tf_squeeze x"] by blast
  moreover have "shape (tf_squeeze y) = shape (tf_squeeze x)"
    using assms(2) by (simp add: tf_squeeze_def)
  moreover have "vals (tf_squeeze y) \<noteq> []"
    using calculation(1) assms(3) by (auto simp: tf_squeeze_def)
  ultimately show ?thesis
    using array_to_img_returns[where x = "tf_squeeze y"] by simp
qed

lemma training_step_returns:
  assumes loss: "\<exists>l. loss_of act_dtype model st ct (generated_image s) = Inr l"
    and opt: "\<forall>opt x. shape (snd (apply_gradients opt (gradient (loss_of act_dtype model st ct) x) x)) = shape x
        \<and> length (vals (snd (apply_gradients opt (gradient (loss_of act_dtype model st ct) x) x)))
            = length (vals x)"
    and img: "array_to_img nan_pixel (tf_squeeze c) = Inr a"
    and sh: "shape (generated_image s) = shape c"
      "length (vals (generated_image s)) = length (vals c)"
  shows "\<exists>s'. training_step act_dtype nan_pixel model gradient apply_gradients st ct s = Inr s'
      \<and> shape (generated_image s') = shape c
      \<and> length (vals (generated_image s')) = length (vals c)"
proof -
  let ?u = "snd (apply_gradients (optimizer s)
      (gradient (loss_of act_dtype model st ct) (generated_image s)) (generated_image s))"
  let ?c = "clip_by_value ?u 0 255"
  have shc: "shape ?c = shape c" "length (vals ?c) = length (vals c)"
    using opt sh by (simp_all add: clip_by_value_def)
  obtain b where b: "array_to_img nan_pixel (tf_squeeze ?c) = Inr b"
    using array_to_img_same_shape[OF img shc] by blast
  from loss obtain l where l: "loss_of act_dtype model st ct (generated_image s) = Inr l" by blast
  show ?thesis
    using l b shc by (simp add: training_step_def Let_def)
qed

lemma training_loop_returns:
  assumes loss: "\<forall>x. shape x = shape c \<and> length (vals x) = length (vals c)
        \<longrightarrow> (\<exists>l. loss_of act_dtype model st ct x = Inr l)"
    and opt: "\<forall>opt x. shape (snd (apply_gradients opt (gradient (loss_of act_dtype model st ct) x) x)) = shape x
        \<and> length (vals (snd (apply_gradients opt (gradient (loss_of act_dtype model st ct) x) x)))
            = length (vals x)"
    and img: "array_to_img nan_pixel (tf_squeeze c) = Inr a"
    and sh: "shape (generated_image s) = shape c"
      "length (vals (generated_image s)) = length (vals c)"
  shows "\<exists>s'. training_loop act_dtype nan_pixel model gradient apply_gradients st ct n s = Inr s'"
  using sh
proof (induction n arbitrary: s)
  case 0
  show ?case by simp
next
  case (Suc n)
  have "\<exists>l. loss_of act_dtype model st ct (generated_image s) = Inr l"
    using loss Suc.prems by blast
  from training_step_returns[where gradient = gradient and apply_gradients = apply_gradients,
      OF this opt img Suc.prems]
  obtain s1 where s1: "training_step act_dtype nan_pixel model gradient apply_gradients st ct s = Inr s1"
    and sh1: "shape (generated_image s1) = shape c"
      "length (vals (generated_image s1)) = length (vals c)"
    by blast
  from Suc.IH[OF sh1] s1 show ?case by simp
qed

lemma training_init_Inr:
  assumes "training_init act_dtype nan_pixel model style_image content_image opt = Inr (st, ct, s0)"
  shows "generated_image s0 = content_image
       \<and> array_to_img nan_pixel (tf_squeeze content_image) = Inr (hd (images s0))
       \<and> length (images s0) = 1"
  using assms
  by (auto simp: training_init_def split: sum.splits prod.splits)

text \<open>
  Claim C3, as amended. For every epoch count \<open>N \<ge> 0\<close>, a run of \<open>training\<close> that
  returns gives exactly \<open>N + 1\<close> snapshots, and snapshot 0 is \<open>array_to_img\<close> of the
  squeezed, unmodified content image: its rendering with the minimum shifted to 0 and the
  maximum scaled to 255, not the image sample for sample. With 0 epochs exactly that one
  snapshot is returned. The run does return when the initial feature extraction and
  rendering succeed, the loss is defined on every image of the content image's shape and
  the optimizer keeps the shape of the variable.
\<close>

theorem training_snapshots:
  "(0 \<le> N \<and> training act_dtype nan_pixel model gradient apply_gradients style_image content_image opt N = Inr imgs
      \<longrightarrow> length imgs = nat N + 1
          \<and> array_to_img nan_pixel (tf_squeeze content_image) = Inr (imgs ! 0))
   \<and> (training act_dtype nan_pixel model gradient apply_gradients style_image content_image opt 0 = Inr imgs
      \<longrightarrow> (\<exists>img. imgs = [img] \<and> array_to_img nan_pixel (tf_squeeze content_image) = Inr img))
   \<and> (0 \<le> N \<and> training_init act_dtype nan_pixel model style_image content_image opt = Inr (st, ct, s0)
       \<and> (\<forall>x. shape x = shape content_image \<and> length (vals x) = length (vals content_image)
             \<longrightarrow> (\<exists>l. loss_of act_dtype model st ct x = Inr l))
       \<and> (\<forall>opt x. shape (snd (apply_gradients opt (gradient (loss_of act_dtype model st ct) x) x)) = shape x
             \<and> length (vals (snd (apply_gradients opt (gradient (loss_of act_dtype model st ct) x) x)))
                 = length (vals x))
      \<longrightarrow> (\<exists>imgs. training act_dtype nan_pixel model gradient apply_gradients style_image content_image opt N
                     = Inr imgs))"
proof -
  have A: "length imgs = nat n + 1 \<and> array_to_img nan_pixel (tf_squeeze content_image) = Inr (imgs ! 0)"
    if r: "training act_dtype nan_pixel model gradient apply_gradients style_image content_image opt n = Inr imgs"
    for n imgs
  proof -
    from r obtain st ct s0 s where
      i: "training_init act_dtype nan_pixel model style_image content_image opt = Inr (st, ct, s0)"
      and l: "training_loop act_dtype nan_pixel model gradient apply_gradients st ct (nat n) s0 = Inr s"
      and im: "imgs = images s"
      by (auto simp: training_def split: sum.splits prod.splits)
    note I = training_init_Inr[OF i]
    note L = training_loop_images[OF l]
    have "length imgs = nat n + 1" using I L im by simp
    moreover have "imgs ! 0 = hd (images s0)"
    proof -
      have "images s ! 0 = take (length (images s0)) (images s) ! 0"
        using I by simp
      also have "\<dots> = images s0 ! 0" using L by simp
      also have "\<dots> = hd (images s0)" using I by (cases "images s0") simp_all
      finally show ?thesis using im by simp
    qed
    ultimately show ?thesis using I by simp
  qed
  have B: "\<exists>img. imgs = [img] \<and> array_to_img nan_pixel (tf_squeeze content_image) = Inr img"
    if r: "training act_dtype nan_pixel model gradient apply_gradients style_image content_image opt 0 = Inr imgs"
  proof -
    from A[OF r] have "length imgs = 1"
      and "array_to_img nan_pixel (tf_squeeze content_image) = Inr (imgs ! 0)" by simp_all
    then show ?thesis by (cases imgs) auto
  qed
  have C: "\<exists>imgs. training act_dtype nan_pixel model gradient apply_gradients style_image content_image opt N
                     = Inr imgs"
    if i: "training_init act_dtype nan_pixel model style_image content_image opt = Inr (st, ct, s0)"
      and loss: "\<forall>x. shape x = shape content_image \<and> length (vals x) = length (vals content_image)
             \<longrightarrow> (\<exists>l. loss_of act_dtype model st ct x = Inr l)"
      and opt: "\<forall>opt x. shape (snd (apply_gradients opt (gradient (loss_of act_dtype model st ct) x) x)) = shape x
             \<and> length (vals (snd (apply_gradients opt (gradient (loss_of act_dtype model st ct) x) x)))
                 = length (vals x)"
  proof -
    note I = training_init_Inr[OF i]
    have "\<exists>s'. training_loop act_dtype nan_pixel model gradient apply_gradients st ct (nat N) s0 = Inr s'"
      using I
      by (intro training_loop_returns[where gradient = gradient
            and apply_gradients = apply_gradients and c = content_image
            and a = "hd (images s0)", OF loss opt]) simp_all
    then show ?thesis using i by (auto simp: training_def)
  qed
  show ?thesis using A B C by blast
qed



lemma ex_get_features:
  "get_features Float32 ex_model x = Inr ([\<lparr>shape = [1, 1, 1], vals = [1]\<rparr>], last (ex_model (image_divide x 255)))"
  by (simp add: get_features_def gram_calc_def einsum_bijc_bijd_bcd_def tf_divide_def at4_def
      ex_model_def)

lemma ex_array_to_img:
  "array_to_img nan_pixel (tf_squeeze ex_content)
     = Inr \<lparr>mode = ''RGB'', img_size = (2, 2),
            pixels = [0, 255, 51, 102, 153, 204, 0, 0, 0, 255, 255, 255]\<rparr>"
  by (simp add: array_to_img_def tf_squeeze_def ex_content_def Let_def sample_value_def)

lemma ex_training_init:
  "training_init Float32 0 ex_model ex_style ex_content (0::nat)
     = Inr ([\<lparr>shape = [1, 1, 1], vals = [1]\<rparr>], last (ex_model (image_divide ex_content 255)),
            \<lparr>generated_image = ex_content, optimizer = 0,
             images = [\<lparr>mode = ''RGB'', img_size = (2, 2),
                        pixels = [0, 255, 51, 102, 153, 204, 0, 0, 0, 255, 255, 255]\<rparr>]\<rparr>)"
  by (simp add: training_init_def ex_get_features ex_array_to_img)

lemma ex_loss_of:
  "shape x = shape ex_content \<Longrightarrow>
     \<exists>l. loss_of Float32 ex_model [\<lparr>shape = [1, 1, 1], vals = [1]\<rparr>] (last (ex_model (image_divide ex_content 255))) x = Inr l"
  by (simp add: loss_of_def ex_get_features get_loss_def tf_subtract_def add_n_def
      ex_model_def image_divide_def)

lemma ex_apply_gradients_shape:
  "shape (snd (ex_apply_gradients opt (ex_gradient f x) x)) = shape x
   \<and> length (vals (snd (ex_apply_gradients opt (ex_gradient f x) x))) = length (vals x)"
  by (simp add: ex_apply_gradients_def ex_gradient_def)


lemma ex_training_step_1:
  "training_step Float32 0 ex_model ex_gradient ex_apply_gradients
      [\<lparr>shape = [1, 1, 1], vals = [1]\<rparr>] (last (ex_model (image_divide ex_content 255)))
      \<lparr>generated_image = ex_content, optimizer = 0, images = ims\<rparr>
   = Inr \<lparr>generated_image =
            \<lparr>shape = [1, 2, 2, 3], vals = map Finite [0, 155, 0, 2, 53, 104, 0, 0, 0, 155, 155, 155]\<rparr>,
          optimizer = 1,
          images = ims @ [\<lparr>mode = ''RGB'', img_size = (2, 2),
                          pixels = [0, 255, 0, 3, 87, 171, 0, 0, 0, 255, 255, 255]\<rparr>]\<rparr>"
proof -
  obtain l where "loss_of Float32 ex_model [\<lparr>shape = [1, 1, 1], vals = [1]\<rparr>]
      (last (ex_model (image_divide ex_content 255))) ex_content = Inr l"
    using ex_loss_of[of ex_content] by auto
  then show ?thesis
    by (simp add: training_step_def ex_gradient_def ex_apply_gradients_def clip_by_value_def
        ex_content_def array_to_img_def tf_squeeze_def Let_def sample_value_def clip_sample_def)
qed

lemma ex_training_step_2:
  "training_step Float32 0 ex_model ex_gradient ex_apply_gradients
      [\<lparr>shape = [1, 1, 1], vals = [1]\<rparr>] (last (ex_model (image_divide ex_content 255)))
      \<lparr>generated_image =
         \<lparr>shape = [1, 2, 2, 3], vals = map Finite [0, 155, 0, 2, 53, 104, 0, 0, 0, 155, 155, 155]\<rparr>,
       optimizer = 1, images = ims\<rparr>
   = Inr \<lparr>generated_image =
            \<lparr>shape = [1, 2, 2, 3], vals = map Finite [0, 55, 0, 0, 0, 4, 0, 0, 0, 55, 55, 55]\<rparr>,
          optimizer = 2,
          images = ims @ [\<lparr>mode = ''RGB'', img_size = (2, 2),
                           pixels = [0, 255, 0, 0, 0, 18, 0, 0, 0, 255, 255, 255]\<rparr>]\<rparr>"
proof -
  obtain l where "loss_of Float32 ex_model [\<lparr>shape = [1, 1, 1], vals = [1]\<rparr>]
      (last (ex_model (image_divide ex_content 255)))
      \<lparr>shape = [1, 2, 2, 3], vals = map Finite [0, 155, 0, 2, 53, 104, 0, 0, 0, 155, 155, 155]\<rparr> = Inr l"
    using ex_loss_of[of "\<lparr>shape = [1, 2, 2, 3],
        vals = map Finite [0, 155, 0, 2, 53, 104, 0, 0, 0, 155, 155, 155]\<rparr>"]
    by (auto simp: ex_content_def)
  then show ?thesis
    by (simp add: training_step_def ex_gradient_def ex_apply_gradients_def clip_by_value_def
        array_to_img_def tf_squeeze_def Let_def sample_value_def clip_sample_def)
qed

lemma ex_training_loop_2:
  "training_loop Float32 0 ex_model ex_gradient ex_apply_gradients
      [\<lparr>shape = [1, 1, 1], vals = [1]\<rparr>] (last (ex_model (image_divide ex_content 255))) 2
      \<lparr>generated_image = ex_content, optimizer = 0, images = ims\<rparr>
   = Inr \<lparr>generated_image =
            \<lparr>shape = [1, 2, 2, 3], vals = map Finite [0, 55, 0, 0, 0, 4, 0, 0, 0, 55, 55, 55]\<rparr>,
          optimizer = 2,
          images = ims @ [
            \<lparr>mode = ''RGB'', img_size = (2, 2),
              pixels = [0, 255, 0, 3, 87, 171, 0, 0, 0, 255, 255, 255]\<rparr>,
            \<lparr>mode = ''RGB'', img_size = (2, 2),
              pixels = [0, 255, 0, 0, 0, 18, 0, 0, 0, 255, 255, 255]\<rparr>]\<rparr>"
  using ex_training_step_1[of ims]
    ex_training_step_2[of "ims @ [\<lparr>mode = ''RGB'', img_size = (2, 2),
              pixels = [0, 255, 0, 3, 87, 171, 0, 0, 0, 255, 255, 255]\<rparr>]"]
  by (simp add: numeral_2_eq_2)

theorem training_snapshots_witness:
  "(0::int) \<le> 2
   \<and> training Float32 0 ex_model ex_gradient ex_apply_gradients ex_style ex_content (0::nat) 2
       = Inr [\<lparr>mode = ''RGB'', img_size = (2, 2),
                pixels = [0, 255, 51, 102, 153, 204, 0, 0, 0, 255, 255, 255]\<rparr>,
              \<lparr>mode = ''RGB'', img_size = (2, 2),
                pixels = [0, 255, 0, 3, 87, 171, 0, 0, 0, 255, 255, 255]\<rparr>,
              \<lparr>mode = ''RGB'', img_size = (2, 2),
                pixels = [0, 255, 0, 0, 0, 18, 0, 0, 0, 255, 255, 255]\<rparr>]
   \<and> length [\<lparr>mode = ''RGB'', img_size = (2, 2),
                pixels = [0, 255, 51, 102, 153, 204, 0, 0, 0, 255, 255, 255]\<rparr>,
              \<lparr>mode = ''RGB'', img_size = (2, 2),
                pixels = [0, 255, 0, 3, 87, 171, 0, 0, 0, 255, 255, 255]\<rparr>,
              \<lparr>mode = ''RGB'', img_size = (2, 2),
                pixels = [0, 255, 0, 0, 0, 18, 0, 0, 0, 255, 255, 255]\<rparr>] = nat 2 + 1
   \<and> array_to_img 0 (tf_squeeze ex_content)
       = Inr \<lparr>mode = ''RGB'', img_size = (2, 2),
              pixels = [0, 255, 51, 102, 153, 204, 0, 0, 0, 255, 255, 255]\<rparr>
   \<and> training Float32 0 ex_model ex_gradient ex_apply_gradients ex_style ex_content (0::nat) 0
       = Inr [\<lparr>mode = ''RGB'', img_size = (2, 2),
                pixels = [0, 255, 51, 102, 153, 204, 0, 0, 0, 255, 255, 255]\<rparr>]
   \<and> (\<exists>imgs. training Float32 0 ex_model ex_gradient ex_apply_gradients ex_style ex_content (0::nat) 2
          = Inr imgs)"
proof -
  let ?i0 = "\<lparr>mode = ''RGB'', img_size = (2, 2),
                pixels = [0, 255, 51, 102, 153, 204, 0, 0, 0, 255, 255, 255]\<rparr>"
  let ?i1 = "\<lparr>mode = ''RGB'', img_size = (2, 2),
                pixels = [0, 255, 0, 3, 87, 171, 0, 0, 0, 255, 255, 255]\<rparr>"
  let ?i2 = "\<lparr>mode = ''RGB'', img_size = (2, 2),
                pixels = [0, 255, 0, 0, 0, 18, 0, 0, 0, 255, 255, 255]\<rparr>"
  let ?st = "[\<lparr>shape = [1, 1, 1], vals = [1]\<rparr>]"
  let ?ct = "last (ex_model (image_divide ex_content 255))"
  let ?s0 = "\<lparr>generated_image = ex_content, optimizer = 0::nat, images = [?i0]\<rparr>"
  have r2: "training Float32 0 ex_model ex_gradient ex_apply_gradients ex_style ex_content (0::nat) 2
      = Inr [?i0, ?i1, ?i2]"
    using ex_training_init ex_training_loop_2[of "[?i0]"] by (simp add: training_def)
  have r0: "training Float32 0 ex_model ex_gradient ex_apply_gradients ex_style ex_content (0::nat) 0
      = Inr [?i0]"
    using ex_training_init by (simp add: training_def)
  have init: "training_init Float32 0 ex_model ex_style ex_content (0::nat) = Inr (?st, ?ct, ?s0)"
    by (rule ex_training_init)
  have loss: "\<forall>x. shape x = shape ex_content \<and> length (vals x) = length (vals ex_content)
      \<longrightarrow> (\<exists>l. loss_of Float32 ex_model ?st ?ct x = Inr l)"
    using ex_loss_of by blast
  have opt: "\<forall>opt x.
        shape (snd (ex_apply_gradients opt (ex_gradient (loss_of Float32 ex_model ?st ?ct) x) x)) = shape x
      \<and> length (vals (snd (ex_apply_gradients opt (ex_gradient (loss_of Float32 ex_model ?st ?ct) x) x)))
          = length (vals x)"
    using ex_apply_gradients_shape by blast
  note T = training_snapshots[where N = 2 and act_dtype = Float32 and nan_pixel = 0 and model = ex_model
      and gradient = ex_gradient
      and apply_gradients = ex_apply_gradients and style_image = ex_style
      and content_image = ex_content and opt = "0::nat" and imgs = "[?i0, ?i1, ?i2]"
      and st = ?st and ct = ?ct and ?s0.0 = ?s0]
  have a: "length [?i0, ?i1, ?i2] = nat 2 + 1
      \<and> array_to_img 0 (tf_squeeze ex_content) = Inr ([?i0, ?i1, ?i2] ! 0)"
    using T r2 by simp
  have c: "\<exists>imgs. training Float32 0 ex_model ex_gradient ex_apply_gradients ex_style ex_content (0::nat) 2
      = Inr imgs"
    using T init loss opt by simp
  show ?thesis using r2 r0 a c by simp
qed


lemma gray_array_to_img:
  "array_to_img nan_pixel (tf_squeeze gray_content)
     = Inr \<lparr>mode = ''RGB'', img_size = (300, 300), pixels = replicate 270000 0\<rparr>"
  by (simp add: array_to_img_def tf_squeeze_def gray_content_def Let_def sample_value_def)

text \<open>
  The claim C3 as it is worded has snapshot 0 equal to the content image. On the gray
  image whose every sample is 100, \<open>array_to_img\<close> subtracts the minimum and the snapshot
  is black: every pixel is 0.
\<close>

theorem training_snapshot_counterexample:
  "training Float32 0 ex_model ex_gradient ex_apply_gradients gray_content gray_content (0::nat) 0
     = Inr [\<lparr>mode = ''RGB'', img_size = (300, 300), pixels = replicate 270000 0\<rparr>]
   \<and> map (Finite \<circ> real)
         (pixels \<lparr>mode = ''RGB'', img_size = (300, 300), pixels = replicate 270000 0\<rparr>)
     \<noteq> vals gray_content"
proof -
  have "training Float32 0 ex_model ex_gradient ex_apply_gradients gray_content gray_content (0::nat) 0
     = Inr [\<lparr>mode = ''RGB'', img_size = (300, 300), pixels = replicate 270000 0\<rparr>]"
    using gray_array_to_img
    by (simp add: training_def training_init_def ex_get_features)
  moreover have "map (Finite \<circ> real) (replicate 270000 0) \<noteq> vals gray_content"
    by (simp add: gray_content_def)
  ultimately show ?thesis by simp
qed

lemma training_loop_add:
  assumes "training_loop act_dtype nan_pixel model gradient apply_gradients st ct (k + m) s = Inr s''"
  shows "\<exists>s'. training_loop act_dtype nan_pixel model gradient apply_gradients st ct k s = Inr s'
       \<and> training_loop act_dtype nan_pixel model gradient apply_gradients st ct m s' = Inr s''"
  using assms
proof (induction k arbitrary: s)
  case 0
  then show ?case by simp
next
  case (Suc k)
  from Suc.prems obtain s1 where
    st: "training_step act_dtype nan_pixel model gradient apply_gradients st ct s = Inr s1"
    and lp: "training_loop act_dtype nan_pixel model gradient apply_gradients st ct (k + m) s1 = Inr s''"
    by (auto split: sum.splits)
  from Suc.IH[OF lp] st show ?case by simp
qed

text \<open>
  Claim C5, as amended. In a run of \<open>n\<close> passes of the loop, for every pass \<open>k\<close> from 1
  to \<open>n\<close>: the generated image after pass \<open>k\<close> is the clamp to \<open>[0, 255]\<close> of what the
  optimizer step produced from the image before it, whatever gradient and optimizer are
  used; every sample of it that is not NaN lies in \<open>[0.0, 255.0]\<close>; a sample is NaN
  exactly where the optimizer step produced NaN; and the snapshot appended in that pass
  is the rendering of this clamped image.
\<close>

theorem clamp_after_every_step:
  assumes run: "training_loop act_dtype nan_pixel model gradient apply_gradients st ct n s0 = Inr sN"
    and k: "0 < k" "k \<le> n"
  shows "\<exists>sp sk.
      training_loop act_dtype nan_pixel model gradient apply_gradients st ct (k - 1) s0 = Inr sp
    \<and> training_loop act_dtype nan_pixel model gradient apply_gradients st ct k s0 = Inr sk
    \<and> generated_image sk =
        clip_by_value
          (snd (apply_gradients (optimizer sp)
             (gradient (loss_of act_dtype model st ct) (generated_image sp)) (generated_image sp))) 0 255
    \<and> (\<forall>x\<in>set (vals (generated_image sk)).
          x = NaN \<or> (\<exists>v. x = Finite v \<and> 0 \<le> v \<and> v \<le> 255))
    \<and> (\<forall>i<length (vals (generated_image sk)).
          (vals (generated_image sk) ! i = NaN)
            = (vals (snd (apply_gradients (optimizer sp)
                 (gradient (loss_of act_dtype model st ct) (generated_image sp)) (generated_image sp)))
                 ! i = NaN))
    \<and> array_to_img nan_pixel (tf_squeeze (generated_image sk))
        = Inr (images sN ! (length (images s0) + k - 1))"
proof -
  from k obtain j where j: "k = Suc j" by (cases k) auto
  from run k obtain sk where
    sk: "training_loop act_dtype nan_pixel model gradient apply_gradients st ct k s0 = Inr sk"
    and rest: "training_loop act_dtype nan_pixel model gradient apply_gradients st ct (n - k) sk = Inr sN"
    using training_loop_add[of act_dtype nan_pixel model gradient apply_gradients st ct k "n - k" s0 sN]
    by auto
  from sk obtain sp where
    sp: "training_loop act_dtype nan_pixel model gradient apply_gradients st ct j s0 = Inr sp"
    and step: "training_step act_dtype nan_pixel model gradient apply_gradients st ct sp = Inr sk"
    unfolding j training_loop_Suc_end by (auto split: sum.splits)
  let ?u = "snd (apply_gradients (optimizer sp)
      (gradient (loss_of act_dtype model st ct) (generated_image sp)) (generated_image sp))"
  note S = training_step_Inr[OF step]
  note C = training_loop_clipped[OF sk k(1)]
  note Ik = training_loop_images[OF sk]
  note IN = training_loop_images[OF rest]
  have g: "generated_image sk = clip_by_value ?u 0 255" using S by simp
  have nan: "\<forall>i<length (vals (generated_image sk)).
      (vals (generated_image sk) ! i = NaN) = (vals ?u ! i = NaN)"
    unfolding g using clip_by_value_nan[of _ ?u 0 255]
    by (simp add: clip_by_value_length)
  have "last (images sk) = images sk ! (length (images s0) + k - 1)"
    using Ik S by (simp add: last_conv_nth)
  also have "\<dots> = take (length (images sk)) (images sN) ! (length (images s0) + k - 1)"
    using IN by simp
  also have "\<dots> = images sN ! (length (images s0) + k - 1)"
    using Ik k by simp
  finally have img: "array_to_img nan_pixel (tf_squeeze (generated_image sk))
        = Inr (images sN ! (length (images s0) + k - 1))"
    using C by simp
  have spk: "training_loop act_dtype nan_pixel model gradient apply_gradients st ct (k - 1) s0 = Inr sp"
    using sp j by simp
  show ?thesis
    using spk sk g C nan img by blast
qed

theorem clamp_after_every_step_witness:
  "training_loop Float32 0 ex_model ex_gradient ex_apply_gradients
      [\<lparr>shape = [1, 1, 1], vals = [1]\<rparr>] (last (ex_model (image_divide ex_content 255))) 2
      \<lparr>generated_image = ex_content, optimizer = 0, images = []\<rparr>
     = Inr \<lparr>generated_image =
            \<lparr>shape = [1, 2, 2, 3], vals = map Finite [0, 55, 0, 0, 0, 4, 0, 0, 0, 55, 55, 55]\<rparr>,
          optimizer = 2,
          images = [
            \<lparr>mode = ''RGB'', img_size = (2, 2),
              pixels = [0, 255, 0, 3, 87, 171, 0, 0, 0, 255, 255, 255]\<rparr>,
            \<lparr>mode = ''RGB'', img_size = (2, 2),
              pixels = [0, 255, 0, 0, 0, 18, 0, 0, 0, 255, 255, 255]\<rparr>]\<rparr>
   \<and> (0::nat) < 1 \<and> (1::nat) \<le> 2
   \<and> (\<exists>sk. training_loop Float32 0 ex_model ex_gradient ex_apply_gradients
          [\<lparr>shape = [1, 1, 1], vals = [1]\<rparr>] (last (ex_model (image_divide ex_content 255))) 1
          \<lparr>generated_image = ex_content, optimizer = 0, images = []\<rparr> = Inr sk
        \<and> list_all (\<lambda>x. x = NaN \<or> (\<exists>v. x = Finite v \<and> 0 \<le> v \<and> v \<le> 255))
              (vals (generated_image sk))
        \<and> array_to_img 0 (tf_squeeze (generated_image sk))
            = Inr \<lparr>mode = ''RGB'', img_size = (2, 2),
                   pixels = [0, 255, 0, 3, 87, 171, 0, 0, 0, 255, 255, 255]\<rparr>)"
proof -
  let ?st = "[\<lparr>shape = [1, 1, 1], vals = [1]\<rparr>]"
  let ?ct = "last (ex_model (image_divide ex_content 255))"
  let ?s0 = "\<lparr>generated_image = ex_content, optimizer = 0::nat, images = []\<rparr>"
  let ?i1 = "\<lparr>mode = ''RGB'', img_size = (2, 2),
              pixels = [0, 255, 0, 3, 87, 171, 0, 0, 0, 255, 255, 255]\<rparr>"
  let ?i2 = "\<lparr>mode = ''RGB'', img_size = (2, 2),
              pixels = [0, 255, 0, 0, 0, 18, 0, 0, 0, 255, 255, 255]\<rparr>"
  let ?sN = "\<lparr>generated_image =
            \<lparr>shape = [1, 2, 2, 3], vals = map Finite [0, 55, 0, 0, 0, 4, 0, 0, 0, 55, 55, 55]\<rparr>,
          optimizer = 2::nat, images = [?i1, ?i2]\<rparr>"
  have run: "training_loop Float32 0 ex_model ex_gradient ex_apply_gradients ?st ?ct 2 ?s0 = Inr ?sN"
    using ex_training_loop_2[of "[]"] by simp
  have k: "(0::nat) < 1" "(1::nat) \<le> 2" by simp_all
  from clamp_after_every_step[OF run k] obtain sk where
    "training_loop Float32 0 ex_model ex_gradient ex_apply_gradients ?st ?ct 1 ?s0 = Inr sk"
    "\<forall>x\<in>set (vals (generated_image sk)).
        x = NaN \<or> (\<exists>v. x = Finite v \<and> 0 \<le> v \<and> v \<le> 255)"
    "array_to_img 0 (tf_squeeze (generated_image sk))
        = Inr (images ?sN ! (length (images ?s0) + 1 - 1))"
    by blast
  then have "\<exists>sk. training_loop Float32 0 ex_model ex_gradient ex_apply_gradients ?st ?ct 1 ?s0 = Inr sk
        \<and> list_all (\<lambda>x. x = NaN \<or> (\<exists>v. x = Finite v \<and> 0 \<le> v \<and> v \<le> 255))
              (vals (generated_image sk))
        \<and> array_to_img 0 (tf_squeeze (generated_image sk)) = Inr ?i1"
    by (auto simp: list_all_iff)
  then show ?thesis using run k by blast
qed

text \<open>
  The claim C5 as it is worded holds regardless of what the optimizer step produced.
  When the step hands back NaN for the first sample, the clamp leaves it: after the pass
  the first sample of the generated image is NaN, which is no value in \<open>[0.0, 255.0]\<close>.
\<close>

theorem clamp_nan_counterexample:
  "training_loop Float32 0 ex_model ex_gradient ex_apply_gradients_nan
      [\<lparr>shape = [1, 1, 1], vals = [1]\<rparr>] (last (ex_model (image_divide ex_content 255))) 1
      \<lparr>generated_image = ex_content, optimizer = 0, images = []\<rparr>
     = Inr \<lparr>generated_image =
            \<lparr>shape = [1, 2, 2, 3],
             vals = NaN # map Finite [255, 51, 102, 153, 204, 0, 0, 0, 255, 255, 255]\<rparr>,
          optimizer = 1,
          images = [\<lparr>mode = ''RGB'', img_size = (2, 2), pixels = [0, 0, 0, 0, 0, 0, 0, 0, 0, 0, 0, 0]\<rparr>]\<rparr>
   \<and> vals \<lparr>shape = [1, 2, 2, 3],
             vals = NaN # map Finite [255, 51, 102, 153, 204, 0, 0, 0, 255, 255, 255]\<rparr> ! 0
       = NaN"
proof -
  obtain l where "loss_of Float32 ex_model [\<lparr>shape = [1, 1, 1], vals = [1]\<rparr>]
      (last (ex_model (image_divide ex_content 255))) ex_content = Inr l"
    using ex_loss_of[of ex_content] by auto
  then show ?thesis
    by (simp add: training_step_def ex_gradient_def ex_apply_gradients_nan_def
        clip_by_value_def ex_content_def array_to_img_def tf_squeeze_def Let_def
        sample_value_def clip_sample_def)
qed

section \<open>The sequence driver\<close>

lemma frame_loop_nonzero_skip:
  assumes "skip \<noteq> 0" and "end_idx \<ge> 0 \<longrightarrow> int j + int n \<le> end_idx"
  shows "frame_loop process start_idx end_idx skip n (drop j xs) (int j) s imgs
     = (case process_all process s
               (map ((!) xs)
                  (filter (\<lambda>k. (int k + 1) mod skip = 0)
                     (filter (\<lambda>k. start_idx \<le> int k) [j..<min (j + n) (length xs)]))) of
          Inl e \<Rightarrow> Inl e
        | Inr (s', out) \<Rightarrow> Inr (s', imgs @ out))"
  using assms(2)
proof (induction n arbitrary: j s imgs)
  case 0
  then show ?case by simp
next
  case (Suc n)
  show ?case
  proof (cases "j < length xs")
    case False
    then show ?thesis by simp
  next
    case True
    then have d: "drop j xs = xs ! j # drop (Suc j) xs"
      by (simp add: Cons_nth_drop_Suc)
    have u: "[j..<min (j + Suc n) (length xs)] = j # [Suc j..<min (Suc j + n) (length xs)]"
      using True by (simp add: upt_conv_Cons)
    have P: "end_idx \<ge> 0 \<longrightarrow> int (Suc j) + int n \<le> end_idx"
      using Suc.prems by auto
    have nb: "(0 \<le> end_idx \<and> end_idx \<le> int j) = False"
      using Suc.prems by auto
    have i: "int (Suc j) = int j + 1" by simp
    note IH = Suc.IH[OF P, unfolded i]
    show ?thesis
    proof (cases "int j + 1 \<le> start_idx")
      case True
      then have "\<not> start_idx \<le> int j" by simp
      then show ?thesis
        unfolding d u using True IH[of s imgs] by (simp add: Let_def)
    next
      case False
      then have ge: "start_idx \<le> int j" by simp
      show ?thesis
      proof (cases "(int j + 1) mod skip = 0")
        case m: False
        show ?thesis
          unfolding d u using False m assms(1) ge IH[of s imgs]
          by (simp add: Let_def nb)
      next
        case m: True
        show ?thesis
        proof (cases "process s (xs ! j)")
          case (Inl e)
          then show ?thesis
            unfolding d u using False m assms(1) ge
            by (simp add: Let_def nb)
        next
          case (Inr r)
          obtain s1 img where r: "r = (s1, img)" by (cases r)
          show ?thesis
            unfolding d u using False m assms(1) ge Inr r IH[of s1 "imgs @ [img]"]
            by (simp add: Let_def nb split: sum.splits prod.splits)
        qed
      qed
    qed
  qed
qed

lemma frame_loop_zero_skip:
  assumes "end_idx \<ge> 0 \<longrightarrow> int j + int n \<le> end_idx"
  shows "frame_loop process start_idx end_idx 0 n (drop j xs) (int j) s imgs
     = (if filter (\<lambda>k. start_idx \<le> int k) [j..<min (j + n) (length xs)] = []
        then Inr (s, imgs) else Inl ZeroDivisionError)"
  using assms
proof (induction n arbitrary: j)
  case 0
  then show ?case by simp
next
  case (Suc n)
  show ?case
  proof (cases "j < length xs")
    case False
    then show ?thesis by simp
  next
    case True
    then have d: "drop j xs = xs ! j # drop (Suc j) xs"
      by (simp add: Cons_nth_drop_Suc)
    have u: "[j..<min (j + Suc n) (length xs)] = j # [Suc j..<min (Suc j + n) (length xs)]"
      using True by (simp add: upt_conv_Cons)
    have P: "end_idx \<ge> 0 \<longrightarrow> int (Suc j) + int n \<le> end_idx"
      using Suc.prems by auto
    have nb: "(0 \<le> end_idx \<and> end_idx \<le> int j) = False"
      using Suc.prems by auto
    have i: "int (Suc j) = int j + 1" by simp
    note IH = Suc.IH[OF P, unfolded i]
    show ?thesis
    proof (cases "int j + 1 \<le> start_idx")
      case True
      then have "\<not> start_idx \<le> int j" by simp
      then show ?thesis
        unfolding d u using True IH by (simp add: Let_def)
    next
      case False
      then have ge: "start_idx \<le> int j" by simp
      show ?thesis
        unfolding d u using False ge by (simp add: Let_def nb)
    qed
  qed
qed

lemma frame_loop_limit:
  "end_idx \<ge> 0 \<longrightarrow>
     int 0 + int (nat (if end_idx \<noteq> - 1 then end_idx else frame_count cap)) \<le> end_idx"
  by auto

lemma frame_loop_selected:
  assumes "skip \<noteq> 0"
  shows "frame_loop process start_idx end_idx skip
           (nat (if end_idx \<noteq> - 1 then end_idx else frame_count cap)) (frames cap) 0 s []
     = process_all process s (map ((!) (frames cap)) (selected_frames start_idx end_idx skip cap))"
proof -
  have "frame_loop process start_idx end_idx skip
           (nat (if end_idx \<noteq> - 1 then end_idx else frame_count cap))
           (drop 0 (frames cap)) (int 0) s []
     = (case process_all process s
               (map ((!) (frames cap)) (selected_frames start_idx end_idx skip cap)) of
          Inl e \<Rightarrow> Inl e
        | Inr (s', out) \<Rightarrow> Inr (s', [] @ out))"
    unfolding selected_frames_def frames_in_range_def
    using frame_loop_nonzero_skip[OF assms frame_loop_limit, where process = process
        and start_idx = start_idx and xs = "frames cap" and s = s and imgs = "[]"
        and ?end_idx = end_idx and ?cap1 = cap]
    by simp
  then show ?thesis by (simp split: sum.splits prod.splits)
qed

lemma frame_loop_none_in_range:
  assumes "frames_in_range start_idx end_idx cap = []"
  shows "frame_loop process start_idx end_idx skip
           (nat (if end_idx \<noteq> - 1 then end_idx else frame_count cap)) (frames cap) 0 s []
     = Inr (s, [])"
proof (cases "skip = 0")
  case True
  have "frame_loop process start_idx end_idx 0
           (nat (if end_idx \<noteq> - 1 then end_idx else frame_count cap))
           (drop 0 (frames cap)) (int 0) s [] = Inr (s, [])"
    using frame_loop_zero_skip[OF frame_loop_limit, where process = process
        and start_idx = start_idx and xs = "frames cap" and s = s and imgs = "[]"
        and ?end_idx = end_idx and ?cap1 = cap] assms
    by (simp add: frames_in_range_def)
  then show ?thesis using True by simp
next
  case False
  have "selected_frames start_idx end_idx skip cap = []"
    using assms by (simp add: selected_frames_def)
  then show ?thesis using frame_loop_selected[OF False, of process start_idx end_idx cap s]
    by simp
qed


lemma process_all_returns:
  assumes "\<forall>s f. \<exists>r. process s f = Inr r"
  shows "\<exists>s' imgs. process_all process s fs = Inr (s', imgs) \<and> length imgs = length fs"
proof (induction fs arbitrary: s)
  case Nil
  show ?case by simp
next
  case (Cons f fs)
  from assms obtain s1 img where p: "process s f = Inr (s1, img)"
    by (metis surj_pair)
  from Cons.IH[of s1] obtain s' imgs where
    "process_all process s1 fs = Inr (s', imgs)" "length imgs = length fs" by blast
  then show ?case using p by simp
qed

lemma selected_frames_set:
  "set (selected_frames start_idx end_idx skip cap)
     = {k. k < length (frames cap) \<and> start_idx \<le> int k
          \<and> int k < (if end_idx \<noteq> - 1 then end_idx else frame_count cap)
          \<and> (int k + 1) mod skip = 0}"
  by (auto simp: selected_frames_def frames_in_range_def)

lemma selected_frames_sorted:
  "sorted (selected_frames start_idx end_idx skip cap)
   \<and> distinct (selected_frames start_idx end_idx skip cap)"
  by (simp add: selected_frames_def frames_in_range_def sorted_wrt_filter)

lemma inferOnVideo_selected:
  assumes "skip \<noteq> 0" and "fs style_image_path = Some style_image"
  shows "inferOnVideo fs videos process style_image_path s0 video_path out_path
           start_idx end_idx skip
     = (case process_all (process style_image) s0
               (map ((!) (frames (videos video_path)))
                  (selected_frames start_idx end_idx skip (videos video_path))) of
          Inl e \<Rightarrow> Inl e
        | Inr (s, imgs) \<Rightarrow> if imgs = [] then Inl IndexError else Inr (out_path, imgs))"
  using assms(2) frame_loop_selected[OF assms(1), of "process style_image" start_idx end_idx
      "videos video_path" s0]
  by (simp add: inferOnVideo_def Let_def)

text \<open>
  Claim C7, as amended. For every \<open>start_idx\<close>, every \<open>end_idx\<close> and every \<open>skip\<close> other
  than 0, the frame loop processes and appends, in stream order, exactly the frames whose
  position \<open>k\<close> (counted from 0) satisfies \<open>start_idx \<le> k < end_idx\<close>, lies within the
  stream, and has \<open>(k + 1) mod skip = 0\<close>; for \<open>end_idx = -1\<close> the upper bound is the
  frame count the stream reports instead. When the stream ends before the upper bound the
  loop ends normally with the frames selected so far. (\<open>skip = 0\<close> is left out: there the
  first frame in range raises \<open>ZeroDivisionError\<close>.)
\<close>

theorem frame_selection:
  "(skip \<noteq> 0 \<and> fs style_image_path = Some style_image \<longrightarrow>
      inferOnVideo fs videos process style_image_path s0 video_path out_path
           start_idx end_idx skip
        = (case process_all (process style_image) s0
               (map ((!) (frames (videos video_path)))
                  (selected_frames start_idx end_idx skip (videos video_path))) of
             Inl e \<Rightarrow> Inl e
           | Inr (s, imgs) \<Rightarrow> if imgs = [] then Inl IndexError else Inr (out_path, imgs)))
   \<and> (skip \<noteq> 0 \<longrightarrow>
        frame_loop (process style_image) start_idx end_idx skip
           (nat (if end_idx \<noteq> - 1 then end_idx else frame_count (videos video_path)))
           (frames (videos video_path)) 0 s0 []
        = process_all (process style_image) s0
            (map ((!) (frames (videos video_path)))
               (selected_frames start_idx end_idx skip (videos video_path))))
   \<and> (skip \<noteq> 0 \<and> (\<forall>s f. \<exists>r. process style_image s f = Inr r) \<longrightarrow>
        (\<exists>s imgs.
           frame_loop (process style_image) start_idx end_idx skip
             (nat (if end_idx \<noteq> - 1 then end_idx else frame_count (videos video_path)))
             (frames (videos video_path)) 0 s0 [] = Inr (s, imgs)
           \<and> length imgs
               = length (selected_frames start_idx end_idx skip (videos video_path))))
   \<and> set (selected_frames start_idx end_idx skip (videos video_path))
       = {k. k < length (frames (videos video_path)) \<and> start_idx \<le> int k
            \<and> int k < (if end_idx \<noteq> - 1 then end_idx else frame_count (videos video_path))
            \<and> (int k + 1) mod skip = 0}
   \<and> sorted (selected_frames start_idx end_idx skip (videos video_path))
   \<and> distinct (selected_frames start_idx end_idx skip (videos video_path))"
proof (intro conjI impI)
  assume "skip \<noteq> 0 \<and> fs style_image_path = Some style_image"
  then show "inferOnVideo fs videos process style_image_path s0 video_path out_path
           start_idx end_idx skip
        = (case process_all (process style_image) s0
               (map ((!) (frames (videos video_path)))
                  (selected_frames start_idx end_idx skip (videos video_path))) of
             Inl e \<Rightarrow> Inl e
           | Inr (s, imgs) \<Rightarrow> if imgs = [] then Inl IndexError else Inr (out_path, imgs))"
    by (intro inferOnVideo_selected) simp_all
next
  assume "skip \<noteq> 0"
  then show "frame_loop (process style_image) start_idx end_idx skip
           (nat (if end_idx \<noteq> - 1 then end_idx else frame_count (videos video_path)))
           (frames (videos video_path)) 0 s0 []
        = process_all (process style_image) s0
            (map ((!) (frames (videos video_path)))
               (selected_frames start_idx end_idx skip (videos video_path)))"
    by (rule frame_loop_selected)
next
  assume h: "skip \<noteq> 0 \<and> (\<forall>s f. \<exists>r. process style_image s f = Inr r)"
  then have all: "\<forall>s f. \<exists>r. process style_image s f = Inr r" by simp
  from process_all_returns[OF all, of s0
      "map ((!) (frames (videos video_path)))
         (selected_frames start_idx end_idx skip (videos video_path))"]
  show "\<exists>s imgs.
           frame_loop (process style_image) start_idx end_idx skip
             (nat (if end_idx \<noteq> - 1 then end_idx else frame_count (videos video_path)))
             (frames (videos video_path)) 0 s0 [] = Inr (s, imgs)
           \<and> length imgs
               = length (selected_frames start_idx end_idx skip (videos video_path))"
    using h frame_loop_selected[of skip "process style_image" start_idx end_idx
        "videos video_path" s0]
    by auto
next
  show "set (selected_frames start_idx end_idx skip (videos video_path))
       = {k. k < length (frames (videos video_path)) \<and> start_idx \<le> int k
            \<and> int k < (if end_idx \<noteq> - 1 then end_idx else frame_count (videos video_path))
            \<and> (int k + 1) mod skip = 0}"
    by (rule selected_frames_set)
next
  show "sorted (selected_frames start_idx end_idx skip (videos video_path))"
    "distinct (selected_frames start_idx end_idx skip (videos video_path))"
    using selected_frames_sorted by blast+
qed


lemma ex_selected_frames:
  "selected_frames 1 10 2 (ex_videos ''video.mp4'') = [1, 3]"
  by (simp add: selected_frames_def frames_in_range_def ex_videos_def upt_rec)

theorem frame_selection_witness:
  "(2::int) \<noteq> 0 \<and> ex_fs ''style.jpg'' = Some 1000
   \<and> selected_frames 1 10 2 (ex_videos ''video.mp4'') = [1, 3]
   \<and> inferOnVideo ex_fs ex_videos ex_process ''style.jpg'' 0 ''video.mp4'' ''out.gif'' 1 10 2
       = Inr (''out.gif'', [1020, 1040])
   \<and> frame_loop (ex_process 1000) 1 10 2 (nat 10) (frames (ex_videos ''video.mp4'')) 0 0 []
       = Inr (2, [1020, 1040])"
proof -
  have h: "(2::int) \<noteq> 0 \<and> ex_fs ''style.jpg'' = Some 1000"
    by (simp add: ex_fs_def)
  have ok: "\<forall>s f. \<exists>r. ex_process 1000 s f = Inr r"
    by (simp add: ex_process_def)
  have pa: "process_all (ex_process 1000) 0
        (map ((!) (frames (ex_videos ''video.mp4''))) [1, 3]) = Inr (2, [1020, 1040])"
    by (simp add: ex_process_def ex_videos_def)
  note T = frame_selection[where skip = 2 and fs = ex_fs and style_image_path = "''style.jpg''"
      and style_image = 1000 and videos = ex_videos and process = ex_process and ?s0.0 = 0
      and video_path = "''video.mp4''" and out_path = "''out.gif''" and start_idx = 1
      and end_idx = 10]
  have a: "inferOnVideo ex_fs ex_videos ex_process ''style.jpg'' 0 ''video.mp4'' ''out.gif'' 1 10 2
       = Inr (''out.gif'', [1020, 1040])"
    using T h pa by (simp add: ex_selected_frames)
  have b: "frame_loop (ex_process 1000) 1 10 2 (nat 10) (frames (ex_videos ''video.mp4'')) 0 0 []
       = Inr (2, [1020, 1040])"
    using T h pa by (simp add: ex_selected_frames)
  show ?thesis using h a b ex_selected_frames by blast
qed

text \<open>
  The claim C7 as it is worded covers every \<open>end_idx\<close> and \<open>skip\<close>. With the default
  \<open>end_idx = -1\<close> the range \<open>[0, -1)\<close> holds no index, yet all five frames are processed;
  with \<open>skip = 0\<close> the loop raises.
\<close>

theorem frame_selection_counterexample:
  "inferOnVideo ex_fs ex_videos ex_process ''style.jpg'' 0 ''video.mp4'' ''out.gif'' 0 (- 1) 1
     = Inr (''out.gif'', [1010, 1020, 1030, 1040, 1050])
   \<and> \<not> ((0::int) \<le> int 0 \<and> int 0 < - 1)
   \<and> inferOnVideo ex_fs ex_videos ex_process ''style.jpg'' 0 ''video.mp4'' ''out.gif'' 0 5 0
     = Inl ZeroDivisionError"
  by (simp add: inferOnVideo_def ex_fs_def ex_videos_def ex_process_def Let_def
      eval_nat_numeral)

text \<open>
  Claim C10. When the style image can be opened and no frame is selected (the stream
  delivers no frame, or \<open>start_idx\<close> is at least the number of frames, or no frame in range
  passes the stride test), \<open>inferOnVideo\<close> fails with \<open>IndexError\<close> at \<open>imgs[0]\<close> and saves
  nothing.
\<close>

theorem empty_selection_index_error:
  assumes "fs style_image_path = Some style_image"
    and "frames (videos video_path) = []
       \<or> int (length (frames (videos video_path))) \<le> start_idx
       \<or> (skip \<noteq> 0 \<and> selected_frames start_idx end_idx skip (videos video_path) = [])"
  shows "inferOnVideo fs videos process style_image_path s0 video_path out_path
           start_idx end_idx skip = Inl IndexError"
proof -
  let ?cap = "videos video_path"
  let ?n = "nat (if end_idx \<noteq> - 1 then end_idx else frame_count ?cap)"
  have "frame_loop (process style_image) start_idx end_idx skip ?n (frames ?cap) 0 s0 []
      = Inr (s0, [])"
  proof (cases "frames_in_range start_idx end_idx ?cap = []")
    case True
    then show ?thesis by (rule frame_loop_none_in_range)
  next
    case False
    then have "frames ?cap \<noteq> []" and "\<not> int (length (frames ?cap)) \<le> start_idx"
      by (auto simp: frames_in_range_def filter_empty_conv)
    with assms(2) have sk: "skip \<noteq> 0"
      and sel: "selected_frames start_idx end_idx skip ?cap = []" by auto
    show ?thesis
      using frame_loop_selected[OF sk, of "process style_image" start_idx end_idx ?cap s0] sel
      by simp
  qed
  then show ?thesis using assms(1) by (simp add: inferOnVideo_def Let_def)
qed

theorem empty_selection_index_error_witness:
  "ex_fs ''style.jpg'' = Some 1000
   \<and> int (length (frames (ex_videos ''video.mp4''))) \<le> 5
   \<and> inferOnVideo ex_fs ex_videos ex_process ''style.jpg'' 0 ''video.mp4'' ''out.gif'' 5 (- 1) 1
       = Inl IndexError
   \<and> frames ((\<lambda>path. \<lparr>frame_count = 0, frames = []\<rparr>) ''missing.mp4'') = ([]::nat list)
   \<and> inferOnVideo ex_fs (\<lambda>path. \<lparr>frame_count = 0, frames = []\<rparr>) ex_process
         ''style.jpg'' 0 ''missing.mp4'' ''out.gif'' 0 (- 1) 1
       = Inl IndexError"
proof -
  have f: "ex_fs ''style.jpg'' = Some 1000" by (simp add: ex_fs_def)
  have l: "int (length (frames (ex_videos ''video.mp4''))) \<le> 5" by (simp add: ex_videos_def)
  have e: "frames ((\<lambda>path. \<lparr>frame_count = 0, frames = []\<rparr>) ''missing.mp4'') = ([]::nat list)"
    by simp
  have a: "inferOnVideo ex_fs ex_videos ex_process ''style.jpg'' 0 ''video.mp4'' ''out.gif''
      5 (- 1) 1 = Inl IndexError"
    using f l by (intro empty_selection_index_error) simp_all
  have b: "inferOnVideo ex_fs (\<lambda>path. \<lparr>frame_count = 0, frames = []\<rparr>) ex_process
         ''style.jpg'' 0 ''missing.mp4'' ''out.gif'' 0 (- 1) 1 = Inl IndexError"
    using f by (intro empty_selection_index_error[where style_image = 1000]) simp_all
  show ?thesis using f l e a b by blast
qed

lemma inferOnImage_image_path_unused:
  "inferOnImage fs stylize style_image_path image_path out_path resize
     = inferOnImage fs stylize style_image_path image_path' out_path resize"
  by (simp add: inferOnImage_def)

text \<open>
  Claim C6 fails on the code: \<open>inferOnImage\<close> opens the fixed path \<open>imgs/content.jpg\<close>
  and never reads \<open>image_path\<close>. Called with \<open>image_path = photo.jpg\<close> it stylizes the
  picture stored at \<open>imgs/content.jpg\<close>, and raises when that file is missing although
  \<open>photo.jpg\<close> exists.
\<close>

theorem inferOnImage_opens_fixed_path:
  "inferOnImage
      [''imgs/content.jpg'' \<mapsto> ''default picture'', ''photo.jpg'' \<mapsto> ''my photo'',
       ''style.jpg'' \<mapsto> ''style picture'']
      (\<lambda>style_image content_image resize. Inr (style_image, content_image))
      ''style.jpg'' ''photo.jpg'' ''out.jpg'' None
     = Inr (''out.jpg'', (''style picture'', ''default picture''))
   \<and> inferOnImage
      [''photo.jpg'' \<mapsto> ''my photo'', ''style.jpg'' \<mapsto> ''style picture'']
      (\<lambda>style_image content_image resize. Inr (style_image, content_image))
      ''style.jpg'' ''photo.jpg'' ''out.jpg'' None
     = Inl FileNotFoundError"
  by (simp add: inferOnImage_def)


end
